theory Spec2Isabelle
  imports Main
begin

section \<open>The Prisma Redis cache extension\<close>

text \<open>
  A shallow embedding of \<^verbatim>\<open>createPrismaRedisCache\<close> and its \<^verbatim>\<open>$allOperations\<close>
  query hook. The extension talks to three collaborators that are not part of the
  repository: the Prisma executor \<^verbatim>\<open>query\<close>, the \<^verbatim>\<open>async-cache-dedupe\<close> cache object
  and the \<^verbatim>\<open>ioredis\<close> client. The executor and the Redis client are parameters of the
  model (an environment record), and so is what the cache library finds in its store;
  how the library (\<^verbatim>\<open>async-cache-dedupe\<close> 2.0.0, the version \<^verbatim>\<open>package.json\<close> pins) treats
  the hook's calls is written into the model where it is used. Everything the hook does
  with its collaborators is recorded in a trace of events.
  An awaited promise is the value it settles to: \<open>Inl\<close> a rejection, \<open>Inr\<close> a result.
\<close>

subsection \<open>Data\<close>

type_synonym args = string
type_synonym result = string

datatype error = Error string

text \<open>One element of the \<^verbatim>\<open>models\<close> option, with the properties the hook reads from it.
  An absent property is \<open>None\<close>.\<close>

record model_entry =
  m_model :: string
  m_cacheKey :: "string option"
  m_cacheTime :: "int option"
  m_excludeMethods :: "string list option"
  m_invalidateRelated :: "string list option"
  m_customInvalidate :: "string list option"
  m_useContainsInvalidation :: "bool option"

text \<open>The \<^verbatim>\<open>storage\<close> option: \<^verbatim>\<open>{type: "redis", options: {client}}\<close>, where the flag says
  whether \<^verbatim>\<open>options.client\<close> is present, or \<^verbatim>\<open>{type: "memory"}\<close>.\<close>

datatype storage = Redis bool | Memory

text \<open>The options of \<^verbatim>\<open>createPrismaRedisCache\<close> after destructuring, so with the defaults
  \<^verbatim>\<open>cacheTime = 0\<close>, \<^verbatim>\<open>excludeModels = []\<close>, \<^verbatim>\<open>excludeMethods = []\<close> and
  \<^verbatim>\<open>useContainsInvalidation = false\<close> filled in. An absent \<^verbatim>\<open>models\<close> is the empty list:
  the hook reads it through \<^verbatim>\<open>models?.forEach\<close>, \<^verbatim>\<open>models?.find\<close> and \<^verbatim>\<open>models || []\<close>.
  \<^verbatim>\<open>createCache\<close> refuses a negative \<^verbatim>\<open>cacheTime\<close>, so the hook only runs with one that is
  not negative.\<close>

record options =
  models :: "model_entry list"
  storage :: "storage option"
  cacheTime :: int
  excludeModels :: "string list"
  excludeMethods :: "string list"
  useContainsInvalidation :: bool

text \<open>The two constants imported from \<^verbatim>\<open>./cacheMethods\<close>, a module that is not among the
  sources: they are parameters.\<close>

record cacheMethods =
  defaultCacheMethods :: "string list"
  defaultMutationMethods :: "string list"

text \<open>The members of the union types \<^verbatim>\<open>PrismaQueryAction\<close> and \<^verbatim>\<open>PrismaMutationAction\<close>.\<close>

definition PrismaQueryAction :: "string list" where
  "PrismaQueryAction =
     [''findFirst'', ''findUnique'', ''findMany'', ''aggregate'', ''count'', ''groupBy'',
      ''findRaw'', ''aggregateRaw'']"

definition PrismaMutationAction :: "string list" where
  "PrismaMutationAction =
     [''create'', ''createMany'', ''update'', ''updateMany'', ''upsert'', ''delete'',
      ''deleteMany'', ''executeRawUnsafe'']"

text \<open>What \<^verbatim>\<open>$allOperations\<close> receives: \<^verbatim>\<open>{ args: queryArgs, model, operation, query }\<close>.
  \<^verbatim>\<open>model\<close> is undefined for raw operations; \<^verbatim>\<open>query\<close> is the executor of the environment.\<close>

record params =
  queryArgs :: args
  model :: "string option"
  operation :: string

text \<open>A function registered with \<^verbatim>\<open>cache.define\<close>. \<^verbatim>\<open>modelsFetch\<close> is the one defined
  inside \<^verbatim>\<open>models.forEach\<close>: it closes over the entry's \<^verbatim>\<open>cacheKey\<close>, is given the option
  \<^verbatim>\<open>ttl: cacheTime || cacheOptions.ttl\<close>, and, since it destructures only \<^verbatim>\<open>{ cb, args }\<close>,
  its \<^verbatim>\<open>queryArgs\<close> is the variable of the call that defined it. \<^verbatim>\<open>modelFetch\<close> is the
  default one, defined with no \<^verbatim>\<open>ttl\<close> option.\<close>

datatype cache_fn = modelsFetch "string option" int args | modelFetch

text \<open>What \<^verbatim>\<open>cache[name]\<close> holds when it is set: a function the hook defined, or a member
  the cache object has of its own (\<^verbatim>\<open>define\<close>, \<^verbatim>\<open>clear\<close>, \<^verbatim>\<open>invalidateAll\<close>, ...), which is a
  function too.\<close>

datatype callee = Function cache_fn | Member

text \<open>The argument object of a call of the cache function. The hook builds it as
  \<^verbatim>\<open>{ cb: fetchFromPrisma, queryArgs }\<close>; \<^verbatim>\<open>cb\<close> is the executor of the current call.\<close>

record call_arg =
  a_args :: "args option"
  a_queryArgs :: args
  a_model :: "string option"

datatype purge = invalidateAll string | removeFormRedis string

datatype event =
    Query "string option" string args
  | CacheCall string args
  | InvalidateAll string
  | RedisDel string
  | Console error

text \<open>What the cache library finds when its function is called: a stored entry or none.
  A store that cannot be reached is a \<open>Miss\<close> for the library, and the write that follows
  is lost; \<open>Fails\<close> is a rejection the library raises of its own.\<close>

datatype lookup = Hit result | Miss | Fails error

text \<open>The environment. \<open>query\<close> runs one operation against the database state;
  \<open>toLowerCase\<close> is the string method of the JavaScript runtime; \<open>lib_get\<close>, \<open>lib_key\<close> and
  \<open>lib_set\<close> are the cache library's lookup, key derivation and store (name, call
  argument, value, ttl, references); \<open>lib_member\<close> is what a member of the cache object
  does when it is called like a cache function; \<open>lib_invalidate\<close> is the effect of
  \<^verbatim>\<open>cache.invalidateAll\<close> on the store, and \<open>redis_del\<close> is \<^verbatim>\<open>redis.del\<close>, which may fail.\<close>

record ('db, 'st) env =
  query :: "string option \<Rightarrow> string \<Rightarrow> args \<Rightarrow> 'db \<Rightarrow> (error + result) \<times> 'db"
  toLowerCase :: "string \<Rightarrow> string"
  lib_key :: "args \<Rightarrow> string"
  lib_get :: "string \<Rightarrow> args \<Rightarrow> 'st \<Rightarrow> lookup"
  lib_set :: "string \<Rightarrow> args \<Rightarrow> result \<Rightarrow> int \<Rightarrow> string list \<Rightarrow> 'st \<Rightarrow> 'st"
  lib_member :: "string \<Rightarrow> args \<Rightarrow> 'st \<Rightarrow> (error + result) \<times> 'st"
  lib_invalidate :: "string \<Rightarrow> 'st \<Rightarrow> 'st"
  redis_del :: "string \<Rightarrow> 'st \<Rightarrow> error option \<times> 'st"

text \<open>The state: the database, the cache backend, the cache object (the names of its own
  members and the functions the hook has defined on it), and the events so far.\<close>

record ('db, 'st) world =
  db :: 'db
  store :: 'st
  members :: "string list"
  cache :: "string \<rightharpoonup> cache_fn"
  trace :: "event list"

subsection \<open>JavaScript values\<close>

text \<open>A string is truthy unless it is empty, a number unless it is zero, and undefined
  is falsy; a template literal prints undefined as the word.\<close>

definition truthy :: "string option \<Rightarrow> bool" where
  "truthy s = (case s of None \<Rightarrow> False | Some x \<Rightarrow> x \<noteq> [])"

definition str_or :: "string option \<Rightarrow> string option \<Rightarrow> string option" where
  "str_or a b = (if truthy a then a else b)"

definition num_or :: "int option \<Rightarrow> int \<Rightarrow> int" where
  "num_or a b = (case a of None \<Rightarrow> b | Some n \<Rightarrow> if n \<noteq> 0 then n else b)"

definition template :: "string option \<Rightarrow> string" where
  "template s = (case s of None \<Rightarrow> ''undefined'' | Some x \<Rightarrow> x)"

text \<open>\<^verbatim>\<open>xs?.includes(x)\<close> and \<^verbatim>\<open>xs?.length\<close> on a list that may be undefined.\<close>

definition js_includes :: "string list option \<Rightarrow> string \<Rightarrow> bool" where
  "js_includes xs x = (case xs of None \<Rightarrow> False | Some ys \<Rightarrow> x \<in> set ys)"

definition has_length :: "string list option \<Rightarrow> bool" where
  "has_length xs = (case xs of None \<Rightarrow> False | Some ys \<Rightarrow> ys \<noteq> [])"

text \<open>The substring pattern of a name: \<^verbatim>\<open>*"name":*\<close>.\<close>

definition quoted :: "string \<Rightarrow> string" where
  "quoted s = ''*'' @ [CHR 0x22] @ s @ [CHR 0x22] @ '':*''"

subsection \<open>The functions given to the cache library\<close>

text \<open>The \<^verbatim>\<open>references\<close> option: the library calls it with the argument object of the
  call and the key. Its first parameter is destructured as \<^verbatim>\<open>{ model }\<close>, which hides the
  hook's own \<^verbatim>\<open>model\<close>.\<close>

fun references :: "cache_fn \<Rightarrow> call_arg \<Rightarrow> string \<Rightarrow> string list" where
  "references (modelsFetch cacheKey ttl captured) a key =
     [template (str_or cacheKey (a_model a)) @ ''~'' @ key]"
| "references modelFetch a key = [template (a_model a) @ ''~'' @ key]"

text \<open>The \<^verbatim>\<open>ttl\<close> option of the definition, when one is given.\<close>

fun ttl_option :: "cache_fn \<Rightarrow> int option" where
  "ttl_option (modelsFetch cacheKey ttl captured) = Some ttl"
| "ttl_option modelFetch = None"

text \<open>The arguments the function passes to \<^verbatim>\<open>cb\<close>: \<^verbatim>\<open>args || queryArgs\<close>.\<close>

fun fetch_args :: "cache_fn \<Rightarrow> call_arg \<Rightarrow> args" where
  "fetch_args (modelsFetch cacheKey ttl captured) a =
     (case a_args a of Some x \<Rightarrow> x | None \<Rightarrow> captured)"
| "fetch_args modelFetch a = (case a_args a of Some x \<Rightarrow> x | None \<Rightarrow> a_queryArgs a)"

subsection \<open>The hook\<close>

definition emit :: "event \<Rightarrow> ('db, 'st) world \<Rightarrow> ('db, 'st) world" where
  "emit e w = w\<lparr>trace := trace w @ [e]\<rparr>"

definition fetchFromPrisma ::
  "('db, 'st) env \<Rightarrow> params \<Rightarrow> args \<Rightarrow> ('db, 'st) world \<Rightarrow> (error + result) \<times> ('db, 'st) world" where
  "fetchFromPrisma env p a w =
     (case query env (model p) (operation p) a (db w) of
        (r, d) \<Rightarrow> (r, emit (Query (model p) (operation p) a) (w\<lparr>db := d\<rparr>)))"

text \<open>\<^verbatim>\<open>cache[name]\<close>: a function the hook defined, else a member of the cache object, else
  undefined. The hook defines a function only under a name that is not set, so no name
  is both.\<close>

definition property :: "('db, 'st) world \<Rightarrow> string \<Rightarrow> callee option" where
  "property w name =
     (case cache w name of
        Some f \<Rightarrow> Some (Function f)
      | None \<Rightarrow> if name \<in> set (members w) then Some Member else None)"

text \<open>\<^verbatim>\<open>cache.define(name, opts, fn)\<close>. The library throws when the \<^verbatim>\<open>ttl\<close> option is a
  negative number; otherwise the function is set on the cache object.\<close>

definition cache_define ::
  "string \<Rightarrow> cache_fn \<Rightarrow> ('db, 'st) world \<Rightarrow> error + ('db, 'st) world" where
  "cache_define name f w =
     (case ttl_option f of
        Some t \<Rightarrow>
          if t < 0 then Inl (Error ''ttl must be a positive integer greater than 0'')
          else Inr (w\<lparr>cache := (cache w)(name \<mapsto> f)\<rparr>)
      | None \<Rightarrow> Inr (w\<lparr>cache := (cache w)(name \<mapsto> f)\<rparr>))"

text \<open>The callback of \<^verbatim>\<open>models?.forEach\<close>, and the loop, which an exception leaves.\<close>

definition models_callback ::
  "options \<Rightarrow> params \<Rightarrow> string \<Rightarrow> model_entry \<Rightarrow> ('db, 'st) world
     \<Rightarrow> error + ('db, 'st) world" where
  "models_callback opts p mdl e w =
     (if property w (m_model e) = None \<and> m_model e = mdl \<and> mdl \<notin> set (excludeModels opts)
         \<and> \<not> js_includes (m_excludeMethods e) (operation p)
      then cache_define mdl
             (modelsFetch (m_cacheKey e) (num_or (m_cacheTime e) (cacheTime opts)) (queryArgs p)) w
      else Inr w)"

fun forEach :: "('a \<Rightarrow> 's \<Rightarrow> error + 's) \<Rightarrow> 'a list \<Rightarrow> 's \<Rightarrow> error + 's" where
  "forEach f [] w = Inr w"
| "forEach f (x # xs) w = (case f x w of Inl err \<Rightarrow> Inl err | Inr w1 \<Rightarrow> forEach f xs w1)"

definition excludedCacheMethodsInModels :: "options \<Rightarrow> string \<Rightarrow> model_entry option" where
  "excludedCacheMethodsInModels opts mdl =
     find (\<lambda>e. m_model e = mdl \<and> has_length (m_excludeMethods e)) (models opts)"

definition define_default ::
  "options \<Rightarrow> params \<Rightarrow> string \<Rightarrow> ('db, 'st) world \<Rightarrow> error + ('db, 'st) world" where
  "define_default opts p mdl w =
     (if property w mdl = None \<and> mdl \<notin> set (excludeModels opts)
         \<and> \<not> (case excludedCacheMethodsInModels opts mdl of
                 None \<Rightarrow> False
               | Some e \<Rightarrow> js_includes (m_excludeMethods e) (operation p))
      then cache_define mdl modelFetch w
      else Inr w)"

definition excludedCacheMethods :: "cacheMethods \<Rightarrow> options \<Rightarrow> string list" where
  "excludedCacheMethods cm opts =
     filter (\<lambda>cacheMethod. cacheMethod \<in> set (excludeMethods opts)) (defaultCacheMethods cm)"

text \<open>The part of the hook that defines cache functions (the \<^verbatim>\<open>if\<close> of line 142): the
  state it leaves, or the exception of a \<^verbatim>\<open>cache.define\<close>.\<close>

definition defining ::
  "cacheMethods \<Rightarrow> options \<Rightarrow> params \<Rightarrow> string \<Rightarrow> ('db, 'st) world
     \<Rightarrow> error + ('db, 'st) world" where
  "defining cm opts p mdl w =
     (if operation p \<notin> set (excludedCacheMethods cm opts)
      then (case forEach (models_callback opts p mdl) (models opts) w of
              Inl err \<Rightarrow> Inl err
            | Inr w1 \<Rightarrow> define_default opts p mdl w1)
      else Inr w)"

text \<open>The state after that part; a \<^verbatim>\<open>cache.define\<close> that throws has changed nothing.\<close>

definition define_functions ::
  "cacheMethods \<Rightarrow> options \<Rightarrow> params \<Rightarrow> string \<Rightarrow> ('db, 'st) world \<Rightarrow> ('db, 'st) world" where
  "define_functions cm opts p mdl w =
     (case defining cm opts p mdl w of Inl err \<Rightarrow> w | Inr w1 \<Rightarrow> w1)"

text \<open>A call \<^verbatim>\<open>cache[model]({ cb: fetchFromPrisma, queryArgs })\<close> of a defined function. The
  library returns a stored entry, or rejects of its own, or runs the defined function,
  which calls \<^verbatim>\<open>cb\<close>; a result is handed to the store under the definition's ttl (the
  cache's own when the definition gives none) with the references computed from the
  argument object and the key, and a failure of \<^verbatim>\<open>cb\<close> rejects the call.\<close>

definition cacheFunction ::
  "('db, 'st) env \<Rightarrow> options \<Rightarrow> params \<Rightarrow> string \<Rightarrow> cache_fn \<Rightarrow> ('db, 'st) world
     \<Rightarrow> (error + result) \<times> ('db, 'st) world" where
  "cacheFunction env opts p name f w =
     (let a = \<lparr>a_args = None, a_queryArgs = queryArgs p, a_model = None\<rparr>;
          w0 = emit (CacheCall name (queryArgs p)) w
      in case lib_get env name (queryArgs p) (store w0) of
           Hit v \<Rightarrow> (Inr v, w0)
         | Fails err \<Rightarrow> (Inl err, w0)
         | Miss \<Rightarrow>
             (case fetchFromPrisma env p (fetch_args f a) w0 of
                (Inl err, w1) \<Rightarrow> (Inl err, w1)
              | (Inr v, w1) \<Rightarrow>
                  (Inr v, w1\<lparr>store :=
                     lib_set env name (queryArgs p) v
                       (case ttl_option f of Some t \<Rightarrow> t | None \<Rightarrow> cacheTime opts)
                       (references f a (lib_key env (queryArgs p))) (store w1)\<rparr>)))"

text \<open>The call of whatever \<^verbatim>\<open>cache[model]\<close> holds.\<close>

definition call ::
  "('db, 'st) env \<Rightarrow> options \<Rightarrow> params \<Rightarrow> string \<Rightarrow> callee \<Rightarrow> ('db, 'st) world
     \<Rightarrow> (error + result) \<times> ('db, 'st) world" where
  "call env opts p name c w =
     (case c of
        Function f \<Rightarrow> cacheFunction env opts p name f w
      | Member \<Rightarrow>
          (case lib_member env name (queryArgs p) (store w) of
             (r, s) \<Rightarrow> (r, emit (CacheCall name (queryArgs p)) (w\<lparr>store := s\<rparr>))))"

text \<open>The list \<^verbatim>\<open>invalidateList\<close> of a mutation, in the order the purges are pushed.\<close>

definition related_purges :: "('db, 'st) env \<Rightarrow> bool \<Rightarrow> bool \<Rightarrow> string \<Rightarrow> purge list" where
  "related_purges env redis contains relatedModel =
     [invalidateAll (''*'' @ relatedModel @ ''~*''), invalidateAll (relatedModel @ ''~*'')]
     @ (if contains
        then [invalidateAll (quoted relatedModel),
              invalidateAll (quoted (toLowerCase env relatedModel))]
             @ (if redis
                then [removeFormRedis (quoted relatedModel),
                      removeFormRedis (quoted (toLowerCase env relatedModel))]
                else [])
        else [])"

definition custom_purges :: "bool \<Rightarrow> string \<Rightarrow> purge list" where
  "custom_purges redis customKey =
     invalidateAll customKey # (if redis then [removeFormRedis customKey] else [])"

definition entry_purges ::
  "('db, 'st) env \<Rightarrow> options \<Rightarrow> bool \<Rightarrow> model_entry \<Rightarrow> purge list" where
  "entry_purges env opts redis e =
     (case m_invalidateRelated e of
        None \<Rightarrow> []
      | Some rs \<Rightarrow>
          concat (map (related_purges env redis
            (case m_useContainsInvalidation e of
               Some subUseContainsInvalidation \<Rightarrow> subUseContainsInvalidation
             | None \<Rightarrow> useContainsInvalidation opts)) rs))
     @ (case m_customInvalidate e of
          None \<Rightarrow> []
        | Some cs \<Rightarrow> concat (map (custom_purges redis) cs))"

definition redis_client :: "options \<Rightarrow> bool" where
  "redis_client opts = (case storage opts of Some (Redis client) \<Rightarrow> client | _ \<Rightarrow> False)"

definition invalidateList :: "('db, 'st) env \<Rightarrow> options \<Rightarrow> string \<Rightarrow> purge list" where
  "invalidateList env opts mdl =
     [invalidateAll (''*'' @ mdl @ ''~*''), invalidateAll (mdl @ ''~*'')]
     @ (if redis_client opts then [removeFormRedis (''*'' @ mdl @ ''~*'')] else [])
     @ (if useContainsInvalidation opts
        then [invalidateAll (quoted mdl), invalidateAll (quoted (toLowerCase env mdl))]
             @ (if redis_client opts
                then [removeFormRedis (quoted mdl), removeFormRedis (quoted (toLowerCase env mdl))]
                else [])
        else [])
     @ concat (map (entry_purges env opts (redis_client opts))
         (filter (\<lambda>x. m_model x = mdl) (models opts)))"

text \<open>Issuing one purge. The promise of \<^verbatim>\<open>cache.invalidateAll\<close> fulfils whatever happens
  to the store: the library catches and logs a failure of its storage. \<^verbatim>\<open>removeFormRedis\<close>
  catches a failure of \<^verbatim>\<open>redis.del\<close> and logs it, so its promise fulfils as well.\<close>

fun run_purge :: "('db, 'st) env \<Rightarrow> purge \<Rightarrow> ('db, 'st) world \<Rightarrow> ('db, 'st) world" where
  "run_purge env (invalidateAll pat) w =
     emit (InvalidateAll pat) (w\<lparr>store := lib_invalidate env pat (store w)\<rparr>)"
| "run_purge env (removeFormRedis str) w =
     (case redis_del env str (store w) of
        (None, s) \<Rightarrow> emit (RedisDel str) (w\<lparr>store := s\<rparr>)
      | (Some e, s) \<Rightarrow> emit (Console e) (emit (RedisDel str) (w\<lparr>store := s\<rparr>)))"

text \<open>All purges are started while the list is built, in order. Every promise of the list
  fulfils, so \<^verbatim>\<open>await Promise.all(invalidateList)\<close> returns once all of them have.\<close>

definition run_purges ::
  "('db, 'st) env \<Rightarrow> purge list \<Rightarrow> ('db, 'st) world \<Rightarrow> ('db, 'st) world" where
  "run_purges env xs w = fold (run_purge env) xs w"

text \<open>The \<^verbatim>\<open>else\<close> branch: query the database, then invalidate after a mutation.\<close>

definition uncached ::
  "cacheMethods \<Rightarrow> ('db, 'st) env \<Rightarrow> options \<Rightarrow> params \<Rightarrow> string \<Rightarrow> ('db, 'st) world
     \<Rightarrow> (error + result) \<times> ('db, 'st) world" where
  "uncached cm env opts p mdl w =
     (case fetchFromPrisma env p (queryArgs p) w of
        (Inl err, w1) \<Rightarrow> (Inl err, w1)
      | (Inr v, w1) \<Rightarrow>
          (if operation p \<in> set (defaultMutationMethods cm)
           then (Inr v, run_purges env (invalidateList env opts mdl) w1)
           else (Inr v, w1)))"

text \<open>The \<^verbatim>\<open>try\<close> branch: the call of \<^verbatim>\<open>cache[model]\<close>, and on any failure of it the
  database.\<close>

definition cached ::
  "('db, 'st) env \<Rightarrow> options \<Rightarrow> params \<Rightarrow> string \<Rightarrow> callee \<Rightarrow> ('db, 'st) world
     \<Rightarrow> (error + result) \<times> ('db, 'st) world" where
  "cached env opts p mdl c w =
     (case call env opts p mdl c w of
        (Inr v, w1) \<Rightarrow> (Inr v, w1)
      | (Inl err, w1) \<Rightarrow>
          (case fetchFromPrisma env p (queryArgs p) w1 of
             (Inl err2, w2) \<Rightarrow> (Inl err2, w2)
           | (Inr v, w2) \<Rightarrow> (Inr v, emit (Console err) w2)))"

text \<open>The hook. An exception of \<^verbatim>\<open>cache.define\<close> leaves it before the executor is
  called.\<close>

definition allOperations ::
  "cacheMethods \<Rightarrow> ('db, 'st) env \<Rightarrow> options \<Rightarrow> params \<Rightarrow> ('db, 'st) world
     \<Rightarrow> (error + result) \<times> ('db, 'st) world" where
  "allOperations cm env opts p w =
     (if \<not> truthy (model p) then fetchFromPrisma env p (queryArgs p) w
      else
        (let mdl = template (model p)
         in case defining cm opts p mdl w of
              Inl err \<Rightarrow> (Inl err, w)
            | Inr w1 \<Rightarrow>
                (case property w1 mdl of
                   Some c \<Rightarrow>
                     (if mdl \<notin> set (excludeModels opts)
                         \<and> operation p \<notin> set (excludedCacheMethods cm opts)
                         \<and> operation p \<notin> set (defaultMutationMethods cm)
                      then cached env opts p mdl c w1
                      else uncached cm env opts p mdl w1)
                 | None \<Rightarrow> uncached cm env opts p mdl w1)))"

text \<open>The events one call of the hook adds to the trace.\<close>

definition issued ::
  "cacheMethods \<Rightarrow> ('db, 'st) env \<Rightarrow> options \<Rightarrow> params \<Rightarrow> ('db, 'st) world \<Rightarrow> event list" where
  "issued cm env opts p w = drop (length (trace w)) (trace (snd (allOperations cm env opts p w)))"

fun is_query :: "event \<Rightarrow> bool" where
  "is_query (Query m method a) = True"
| "is_query e = False"

fun is_cache_call :: "event \<Rightarrow> bool" where
  "is_cache_call (CacheCall name a) = True"
| "is_cache_call e = False"

fun is_purge :: "event \<Rightarrow> bool" where
  "is_purge (InvalidateAll pat) = True"
| "is_purge (RedisDel str) = True"
| "is_purge e = False"

text \<open>The event that issuing a purge leaves in the trace.\<close>

fun purge_event :: "purge \<Rightarrow> event" where
  "purge_event (invalidateAll pat) = InvalidateAll pat"
| "purge_event (removeFormRedis str) = RedisDel str"

subsection \<open>An example environment\<close>

text \<open>A database that answers every operation with the operation's name and arguments
  and counts the calls, a runtime that lower-cases the ASCII letters, and a cache backend
  that is a list of entries: a value is stored under \<^verbatim>\<open>name~arguments\<close> with its ttl and
  references when the ttl is positive, and invalidation and \<^verbatim>\<open>DEL\<close> remove the entry
  stored under exactly the given string. A member of the cache object called like a
  cache function rejects.\<close>

type_synonym example_store = "(string \<times> result \<times> int \<times> string list) list"

definition lower_char :: "char \<Rightarrow> char" where
  "lower_char c =
     (case map_of (zip ''ABCDEFGHIJKLMNOPQRSTUVWXYZ'' ''abcdefghijklmnopqrstuvwxyz'') c of
        Some l \<Rightarrow> l
      | None \<Rightarrow> c)"

definition example_env :: "(nat, example_store) env" where
  "example_env =
     \<lparr>query = (\<lambda>m method a d. (Inr (method @ '':'' @ a), Suc d)),
      toLowerCase = map lower_char,
      lib_key = (\<lambda>a. a),
      lib_get = (\<lambda>name a s. case map_of s (name @ ''~'' @ a) of
                               None \<Rightarrow> Miss
                             | Some (v, t, refs) \<Rightarrow> Hit v),
      lib_set = (\<lambda>name a v t refs s. if t < 1 then s else (name @ ''~'' @ a, v, t, refs) # s),
      lib_member = (\<lambda>name a s. (Inl (Error ''not a cache function''), s)),
      lib_invalidate = (\<lambda>pat s. filter (\<lambda>kv. fst kv \<noteq> pat) s),
      redis_del = (\<lambda>str s. (None, filter (\<lambda>kv. fst kv \<noteq> str) s))\<rparr>"

definition example_methods :: cacheMethods where
  "example_methods =
     \<lparr>defaultCacheMethods = PrismaQueryAction, defaultMutationMethods = PrismaMutationAction\<rparr>"

definition example_world :: "(nat, example_store) world" where
  "example_world =
     \<lparr>db = 0, store = [],
      members = [''define'', ''clear'', ''get'', ''set'', ''invalidate'', ''invalidateAll''],
      cache = Map.empty, trace = []\<rparr>"

definition entry :: "string \<Rightarrow> model_entry" where
  "entry name =
     \<lparr>m_model = name, m_cacheKey = None, m_cacheTime = None, m_excludeMethods = None,
      m_invalidateRelated = None, m_customInvalidate = None, m_useContainsInvalidation = None\<rparr>"

definition example_options :: options where
  "example_options =
     \<lparr>models = [], storage = Some Memory, cacheTime = 60, excludeModels = [],
      excludeMethods = [], useContainsInvalidation = False\<rparr>"

text \<open>A \<open>Post\<close> entry that names \<open>Comment\<close> as related, and a \<open>Comment\<close> entry, each
  with its own substring-invalidation flag; and a write on \<open>Post\<close>.\<close>

definition blog_models :: "bool option \<Rightarrow> bool option \<Rightarrow> model_entry list" where
  "blog_models post_flag comment_flag =
     [(entry ''Post'')\<lparr>m_invalidateRelated := Some [''Comment''],
                      m_useContainsInvalidation := post_flag\<rparr>,
      (entry ''Comment'')\<lparr>m_useContainsInvalidation := comment_flag\<rparr>]"

definition update_Post :: params where
  "update_Post = \<lparr>queryArgs = ''{}'', model = Some ''Post'', operation = ''update''\<rparr>"

text \<open>Options with one entry for \<open>User\<close>: one with a key prefix, a cache time and a
  related model, one with a cache time of zero; and a read of \<open>User\<close>.\<close>

definition keyed_options :: options where
  "keyed_options =
     example_options\<lparr>models := [(entry ''User'')\<lparr>m_cacheKey := Some ''U'', m_cacheTime := Some 300,
                                      m_invalidateRelated := Some [''Post'']\<rparr>]\<rparr>"

definition zero_ttl_options :: options where
  "zero_ttl_options = example_options\<lparr>models := [(entry ''User'')\<lparr>m_cacheTime := Some 0\<rparr>]\<rparr>"

definition findMany_User :: params where
  "findMany_User = \<lparr>queryArgs = ''{}'', model = Some ''User'', operation = ''findMany''\<rparr>"

text \<open>An entry for \<open>User\<close> that excludes \<^verbatim>\<open>count\<close>, and two more operations on \<open>User\<close>.\<close>

definition count_excluded_options :: options where
  "count_excluded_options =
     example_options\<lparr>models := [(entry ''User'')\<lparr>m_excludeMethods := Some [''count'']\<rparr>]\<rparr>"

definition count_User :: params where
  "count_User = \<lparr>queryArgs = ''{}'', model = Some ''User'', operation = ''count''\<rparr>"

definition create_User :: params where
  "create_User = \<lparr>queryArgs = ''{}'', model = Some ''User'', operation = ''create''\<rparr>"

text \<open>A database whose first call fails and whose second succeeds; a database that
  always fails and numbers its failures; a cache store that cannot be reached, as the
  library presents it (every lookup a miss, every write lost); and a Redis client whose
  \<^verbatim>\<open>DEL\<close> fails.\<close>

definition flaky_env :: "(nat, example_store) env" where
  "flaky_env =
     example_env\<lparr>query := (\<lambda>m method a d.
       (if d = 0 then Inl (Error ''connection reset'') else Inr (method @ '':'' @ a), Suc d))\<rparr>"

definition failing_env :: "(nat, example_store) env" where
  "failing_env =
     example_env\<lparr>query := (\<lambda>m method a d.
       (Inl (Error (if d = 0 then ''first failure'' else ''later failure'')), Suc d))\<rparr>"

definition store_down_env :: "(nat, example_store) env" where
  "store_down_env =
     example_env\<lparr>lib_get := (\<lambda>name a s. Miss), lib_set := (\<lambda>name a v t refs s. s)\<rparr>"

definition failing_redis_env :: "(nat, example_store) env" where
  "failing_redis_env =
     example_env\<lparr>redis_del := (\<lambda>str s. (Some (Error ''redis down''), s))\<rparr>"

text \<open>Options that list \<open>User\<close> in \<^verbatim>\<open>models\<close> with nothing else set, options with a Redis
  client, and two reads of \<open>User\<close> with different arguments.\<close>

definition listed_options :: options where
  "listed_options = example_options\<lparr>models := [entry ''User'']\<rparr>"

definition redis_options :: options where
  "redis_options = example_options\<lparr>storage := Some (Redis True)\<rparr>"

definition find_first :: params where
  "find_first = \<lparr>queryArgs = ''id=1'', model = Some ''User'', operation = ''findMany''\<rparr>"

definition find_second :: params where
  "find_second = \<lparr>queryArgs = ''id=2'', model = Some ''User'', operation = ''findMany''\<rparr>"

section \<open>Properties\<close>

subsection \<open>What each step touches\<close>

lemma trace_emit: "trace (emit e w) = trace w @ [e]"
  by (simp add: emit_def)

lemma fetchFromPrisma_eq:
  "fetchFromPrisma env p a w =
     (fst (query env (model p) (operation p) a (db w)),
      w\<lparr>db := snd (query env (model p) (operation p) a (db w)),
        trace := trace w @ [Query (model p) (operation p) a]\<rparr>)"
  by (simp add: fetchFromPrisma_def emit_def split: prod.splits)

lemma cache_define_frame:
  "cache_define name f w = Inr w1 \<Longrightarrow>
   db w1 = db w \<and> store w1 = store w \<and> trace w1 = trace w \<and> members w1 = members w"
  by (auto simp add: cache_define_def split: option.splits if_splits)

lemma models_callback_frame:
  "models_callback opts p mdl e w = Inr w1 \<Longrightarrow>
   db w1 = db w \<and> store w1 = store w \<and> trace w1 = trace w \<and> members w1 = members w"
  using cache_define_frame by (fastforce simp add: models_callback_def split: if_splits)

lemma forEach_models_callback_frame:
  "forEach (models_callback opts p mdl) es w = Inr w1 \<Longrightarrow>
   db w1 = db w \<and> store w1 = store w \<and> trace w1 = trace w \<and> members w1 = members w"
proof (induction es arbitrary: w)
  case Nil
  then show ?case by simp
next
  case (Cons e es)
  then obtain w0 where step: "models_callback opts p mdl e w = Inr w0"
    and rest: "forEach (models_callback opts p mdl) es w0 = Inr w1"
    by (auto split: sum.splits)
  show ?case
    using Cons.IH [OF rest] models_callback_frame [OF step] by simp
qed

lemma define_default_frame:
  "define_default opts p mdl w = Inr w1 \<Longrightarrow>
   db w1 = db w \<and> store w1 = store w \<and> trace w1 = trace w \<and> members w1 = members w"
  using cache_define_frame by (fastforce simp add: define_default_def split: if_splits)

lemma defining_frame:
  assumes "defining cm opts p mdl w = Inr w1"
  shows "db w1 = db w \<and> store w1 = store w \<and> trace w1 = trace w \<and> members w1 = members w"
proof (cases "operation p \<in> set (excludedCacheMethods cm opts)")
  case True
  then show ?thesis
    using assms by (simp add: defining_def)
next
  case False
  then obtain w0 where a: "forEach (models_callback opts p mdl) (models opts) w = Inr w0"
    and b: "define_default opts p mdl w0 = Inr w1"
    using assms by (auto simp add: defining_def split: sum.splits)
  show ?thesis
    using forEach_models_callback_frame [OF a] define_default_frame [OF b] by simp
qed

lemma define_functions_frame:
  "db (define_functions cm opts p mdl w) = db w
     \<and> store (define_functions cm opts p mdl w) = store w
     \<and> trace (define_functions cm opts p mdl w) = trace w"
  using defining_frame [of cm opts p mdl w]
  by (cases "defining cm opts p mdl w") (simp_all add: define_functions_def)

lemma run_purge_frame:
  "db (run_purge env x w) = db w \<and> cache (run_purge env x w) = cache w
     \<and> members (run_purge env x w) = members w"
  by (cases x) (simp_all add: emit_def split: prod.splits option.splits)

lemma run_purge_trace:
  "\<exists>evs. trace (run_purge env x w) = trace w @ evs \<and> filter is_purge evs = [purge_event x]
      \<and> filter is_query evs = [] \<and> filter is_cache_call evs = []"
  by (cases x) (auto simp add: emit_def split: prod.splits option.splits)

lemma run_purges_trace:
  "\<exists>evs. trace (run_purges env xs w) = trace w @ evs
      \<and> filter is_purge evs = map purge_event xs
      \<and> filter is_query evs = [] \<and> filter is_cache_call evs = []"
proof (induction xs arbitrary: w)
  case Nil
  then show ?case by (simp add: run_purges_def)
next
  case (Cons x xs)
  from run_purge_trace [of env x w] obtain e1 where
    e1: "trace (run_purge env x w) = trace w @ e1" "filter is_purge e1 = [purge_event x]"
        "filter is_query e1 = []" "filter is_cache_call e1 = []"
    by blast
  from Cons.IH [of "run_purge env x w"] obtain e2 where
    e2: "trace (run_purges env xs (run_purge env x w)) = trace (run_purge env x w) @ e2"
        "filter is_purge e2 = map purge_event xs"
        "filter is_query e2 = []" "filter is_cache_call e2 = []"
    by blast
  have "trace (run_purges env (x # xs) w) = trace w @ (e1 @ e2)"
    using e1(1) e2(1) by (simp add: run_purges_def)
  moreover have "filter is_purge (e1 @ e2) = map purge_event (x # xs)"
    using e1(2) e2(2) by simp
  moreover have "filter is_query (e1 @ e2) = []" "filter is_cache_call (e1 @ e2) = []"
    using e1 e2 by simp_all
  ultimately show ?case by blast
qed

lemma run_purges_frame:
  "db (run_purges env xs w) = db w \<and> cache (run_purges env xs w) = cache w
     \<and> members (run_purges env xs w) = members w"
proof (induction xs arbitrary: w)
  case Nil
  then show ?case by (simp add: run_purges_def)
next
  case (Cons x xs)
  show ?case
    using Cons.IH [of "run_purge env x w"] run_purge_frame [of env x w]
    by (simp add: run_purges_def)
qed

subsection \<open>Writes\<close>

lemma allOperations_mutation:
  "truthy (model p) \<Longrightarrow> operation p \<in> set (defaultMutationMethods cm) \<Longrightarrow>
   allOperations cm env opts p w =
     (case defining cm opts p (template (model p)) w of
        Inl err \<Rightarrow> (Inl err, w)
      | Inr w1 \<Rightarrow> uncached cm env opts p (template (model p)) w1)"
  by (simp add: allOperations_def Let_def split: option.splits sum.splits)

text \<open>A write that returns a result to its caller: the executor was called once, with
  success, and after it every purge of the list was issued, in the order of the list.\<close>

lemma write_fulfilled:
  assumes "truthy (model p)"
    and "operation p \<in> set (defaultMutationMethods cm)"
    and "fst (allOperations cm env opts p w) = Inr v"
  shows "fst (query env (model p) (operation p) (queryArgs p) (db w)) = Inr v
       \<and> (\<exists>evs. issued cm env opts p w = Query (model p) (operation p) (queryArgs p) # evs
             \<and> filter is_query evs = []
             \<and> filter is_purge evs = map purge_event (invalidateList env opts (template (model p))))"
proof -
  let ?mdl = "template (model p)"
  obtain w0 where d: "defining cm opts p ?mdl w = Inr w0"
    using assms by (cases "defining cm opts p ?mdl w") (simp_all add: allOperations_mutation)
  have fr: "db w0 = db w" "trace w0 = trace w"
    using defining_frame [OF d] by simp_all
  have all: "allOperations cm env opts p w = uncached cm env opts p ?mdl w0"
    using assms(1,2) d by (simp add: allOperations_mutation)
  let ?w1 = "snd (fetchFromPrisma env p (queryArgs p) w0)"
  have ok: "fst (query env (model p) (operation p) (queryArgs p) (db w)) = Inr v"
    using assms(2,3) all fr
    by (cases "fst (query env (model p) (operation p) (queryArgs p) (db w))")
      (simp_all add: uncached_def fetchFromPrisma_eq)
  then have f: "fetchFromPrisma env p (queryArgs p) w0 = (Inr v, ?w1)"
    using fr by (simp add: fetchFromPrisma_eq)
  have t1: "trace ?w1 = trace w @ [Query (model p) (operation p) (queryArgs p)]"
    using fr by (simp add: fetchFromPrisma_eq)
  from run_purges_trace [of env "invalidateList env opts ?mdl" ?w1] obtain evs where
    evs: "trace (run_purges env (invalidateList env opts ?mdl) ?w1) = trace ?w1 @ evs"
         "filter is_purge evs = map purge_event (invalidateList env opts ?mdl)"
         "filter is_query evs = []"
    by blast
  have "snd (allOperations cm env opts p w) = run_purges env (invalidateList env opts ?mdl) ?w1"
    using all assms(2) f by (simp add: uncached_def split: prod.splits)
  then have "issued cm env opts p w = Query (model p) (operation p) (queryArgs p) # evs"
    using evs(1) t1 by (simp add: issued_def)
  with ok evs(2,3) show ?thesis by blast
qed

text \<open>A write that is rejected: no purge was issued and the store is as before; the error
  is the one of \<^verbatim>\<open>cache.define\<close> or the executor's.\<close>

lemma write_rejected:
  assumes "truthy (model p)"
    and "operation p \<in> set (defaultMutationMethods cm)"
    and "fst (allOperations cm env opts p w) = Inl err"
  shows "filter is_purge (issued cm env opts p w) = []
       \<and> store (snd (allOperations cm env opts p w)) = store w
       \<and> (defining cm opts p (template (model p)) w = Inl err
          \<or> fst (query env (model p) (operation p) (queryArgs p) (db w)) = Inl err)"
proof (cases "defining cm opts p (template (model p)) w")
  case (Inl e)
  then show ?thesis
    using assms by (simp add: allOperations_mutation issued_def)
next
  case (Inr w0)
  have fr: "db w0 = db w" "trace w0 = trace w" "store w0 = store w"
    using defining_frame [OF Inr] by simp_all
  have all: "allOperations cm env opts p w = uncached cm env opts p (template (model p)) w0"
    using assms(1,2) Inr by (simp add: allOperations_mutation)
  show ?thesis
    using assms(2,3) all fr
    by (cases "fst (query env (model p) (operation p) (queryArgs p) (db w))")
      (simp_all add: uncached_def fetchFromPrisma_eq issued_def)
qed

lemma purge_event_inj: "purge_event x = purge_event y \<longleftrightarrow> x = y"
  by (cases x; cases y) simp_all

lemma issued_purge_iff:
  assumes "truthy (model p)"
    and "operation p \<in> set (defaultMutationMethods cm)"
    and "fst (allOperations cm env opts p w) = Inr v"
  shows "purge_event x \<in> set (issued cm env opts p w)
           \<longleftrightarrow> x \<in> set (invalidateList env opts (template (model p)))"
proof -
  from write_fulfilled [OF assms] obtain evs where
    evs: "issued cm env opts p w = Query (model p) (operation p) (queryArgs p) # evs"
         "filter is_purge evs = map purge_event (invalidateList env opts (template (model p)))"
    by blast
  have p: "is_purge (purge_event x)" "purge_event x \<noteq> Query (model p) (operation p) (queryArgs p)"
    by (cases x; simp)+
  have "purge_event x \<in> set (issued cm env opts p w) \<longleftrightarrow> purge_event x \<in> set (filter is_purge evs)"
    using evs(1) p by auto
  also have "\<dots> \<longleftrightarrow> purge_event x \<in> purge_event ` set (invalidateList env opts (template (model p)))"
    using evs(2) by simp
  also have "\<dots> \<longleftrightarrow> x \<in> set (invalidateList env opts (template (model p)))"
    by (auto simp add: purge_event_inj)
  finally show ?thesis .
qed

subsection \<open>What the list of purges holds\<close>

lemma redis_client_iff: "redis_client opts \<longleftrightarrow> storage opts = Some (Redis True)"
  by (simp add: redis_client_def split: option.splits storage.splits)

lemma related_purges_invalidateAll:
  "invalidateAll s \<in> set (related_purges env redis contains R) \<longleftrightarrow>
     s = ''*'' @ R @ ''~*'' \<or> s = R @ ''~*''
     \<or> (contains \<and> (s = quoted R \<or> s = quoted (toLowerCase env R)))"
  by (auto simp add: related_purges_def)

lemma related_purges_removeFormRedis:
  "removeFormRedis s \<in> set (related_purges env redis contains R) \<longleftrightarrow>
     redis \<and> contains \<and> (s = quoted R \<or> s = quoted (toLowerCase env R))"
  by (auto simp add: related_purges_def)

lemma custom_purges_iff:
  "invalidateAll s \<in> set (custom_purges redis c) \<longleftrightarrow> s = c"
  "removeFormRedis s \<in> set (custom_purges redis c) \<longleftrightarrow> redis \<and> s = c"
  by (auto simp add: custom_purges_def)

lemma entry_purges_invalidateAll:
  "invalidateAll s \<in> set (entry_purges env opts redis e) \<longleftrightarrow>
     (\<exists>rs. m_invalidateRelated e = Some rs \<and>
        (\<exists>R\<in>set rs. s = ''*'' @ R @ ''~*'' \<or> s = R @ ''~*''
           \<or> ((case m_useContainsInvalidation e of Some b \<Rightarrow> b
                | None \<Rightarrow> useContainsInvalidation opts)
               \<and> (s = quoted R \<or> s = quoted (toLowerCase env R)))))
     \<or> (\<exists>cs. m_customInvalidate e = Some cs \<and> s \<in> set cs)"
  by (cases "m_invalidateRelated e"; cases "m_customInvalidate e")
    (auto simp add: entry_purges_def related_purges_invalidateAll custom_purges_iff)

lemma entry_purges_removeFormRedis:
  "removeFormRedis s \<in> set (entry_purges env opts redis e) \<longleftrightarrow>
     redis \<and>
     ((\<exists>rs. m_invalidateRelated e = Some rs \<and>
        (case m_useContainsInvalidation e of Some b \<Rightarrow> b | None \<Rightarrow> useContainsInvalidation opts)
        \<and> (\<exists>R\<in>set rs. s = quoted R \<or> s = quoted (toLowerCase env R)))
      \<or> (\<exists>cs. m_customInvalidate e = Some cs \<and> s \<in> set cs))"
  by (cases "m_invalidateRelated e"; cases "m_customInvalidate e")
    (auto simp add: entry_purges_def related_purges_removeFormRedis custom_purges_iff)

lemma invalidateList_invalidateAll:
  "invalidateAll s \<in> set (invalidateList env opts M) \<longleftrightarrow>
     s = ''*'' @ M @ ''~*'' \<or> s = M @ ''~*''
     \<or> (useContainsInvalidation opts \<and> (s = quoted M \<or> s = quoted (toLowerCase env M)))
     \<or> (\<exists>e\<in>set (models opts). m_model e = M \<and>
          ((\<exists>rs. m_invalidateRelated e = Some rs \<and>
              (\<exists>R\<in>set rs. s = ''*'' @ R @ ''~*'' \<or> s = R @ ''~*''
                 \<or> ((case m_useContainsInvalidation e of Some b \<Rightarrow> b
                      | None \<Rightarrow> useContainsInvalidation opts)
                     \<and> (s = quoted R \<or> s = quoted (toLowerCase env R)))))
           \<or> (\<exists>cs. m_customInvalidate e = Some cs \<and> s \<in> set cs)))"
  by (auto simp add: invalidateList_def entry_purges_invalidateAll)

lemma invalidateList_removeFormRedis:
  "removeFormRedis s \<in> set (invalidateList env opts M) \<longleftrightarrow>
     redis_client opts \<and>
     (s = ''*'' @ M @ ''~*''
      \<or> (useContainsInvalidation opts \<and> (s = quoted M \<or> s = quoted (toLowerCase env M)))
      \<or> (\<exists>e\<in>set (models opts). m_model e = M \<and>
           ((\<exists>rs. m_invalidateRelated e = Some rs \<and>
               (case m_useContainsInvalidation e of Some b \<Rightarrow> b
                | None \<Rightarrow> useContainsInvalidation opts)
               \<and> (\<exists>R\<in>set rs. s = quoted R \<or> s = quoted (toLowerCase env R)))
            \<or> (\<exists>cs. m_customInvalidate e = Some cs \<and> s \<in> set cs))))"
  by (auto simp add: invalidateList_def entry_purges_removeFormRedis)

lemma prefix_pattern_not_starred: "M @ ''~*'' \<noteq> ''*'' @ M @ ''~*''"
proof
  assume "M @ ''~*'' = ''*'' @ M @ ''~*''"
  then have "length (M @ ''~*'') = length (''*'' @ M @ ''~*'')"
    by (rule arg_cong)
  then show False by simp
qed

lemma prefix_pattern_not_quoted: "M @ ''~*'' \<noteq> quoted X"
proof
  assume "M @ ''~*'' = quoted X"
  then have "M @ ''~*'' = (''*'' @ [CHR 0x22] @ X @ [CHR 0x22]) @ '':*''"
    by (simp add: quoted_def)
  then have "''~*'' = '':*''"
    by (subst (asm) append_eq_append_conv) simp_all
  then show False by simp
qed

subsection \<open>Which cache function a call defines\<close>

lemma property_Function: "cache w name = Some f \<Longrightarrow> property w name = Some (Function f)"
  by (simp add: property_def)

lemma property_None: "property w name = None \<longleftrightarrow> cache w name = None \<and> name \<notin> set (members w)"
  by (simp add: property_def split: option.splits)

lemma models_callback_set:
  "property w mdl \<noteq> None \<Longrightarrow> models_callback opts p mdl e w = Inr w"
  by (auto simp add: models_callback_def)

lemma forEach_models_callback_set:
  "property w mdl \<noteq> None \<Longrightarrow> forEach (models_callback opts p mdl) es w = Inr w"
  by (induction es) (simp_all add: models_callback_set)

lemma define_default_set: "property w mdl \<noteq> None \<Longrightarrow> define_default opts p mdl w = Inr w"
  by (auto simp add: define_default_def)

lemma defining_set: "property w mdl \<noteq> None \<Longrightarrow> defining cm opts p mdl w = Inr w"
  by (simp add: defining_def forEach_models_callback_set define_default_set)

lemma define_functions_defined:
  "cache w mdl = Some f \<Longrightarrow> define_functions cm opts p mdl w = w"
  by (simp add: define_functions_def defining_set property_Function)

lemma defining_define_functions:
  assumes "cache (define_functions cm opts p mdl w) mdl = Some f"
  shows "defining cm opts p mdl w = Inr (define_functions cm opts p mdl w)"
proof (cases "defining cm opts p mdl w")
  case (Inl err)
  then have "cache w mdl = Some f"
    using assms by (simp add: define_functions_def)
  then have "defining cm opts p mdl w = Inr w"
    by (simp add: defining_set property_Function)
  with Inl show ?thesis by simp
next
  case (Inr w1)
  then show ?thesis by (simp add: define_functions_def)
qed

lemma forEach_models_first:
  assumes "property w mdl = None" and "mdl \<notin> set (excludeModels opts)"
    and "find (\<lambda>e. m_model e = mdl) es = Some e"
    and "\<not> js_includes (m_excludeMethods e) (operation p)"
  shows "forEach (models_callback opts p mdl) es w =
           cache_define mdl
             (modelsFetch (m_cacheKey e) (num_or (m_cacheTime e) (cacheTime opts)) (queryArgs p)) w"
  using assms
proof (induction es arbitrary: w)
  case Nil
  then show ?case by simp
next
  case (Cons x xs)
  let ?f = "modelsFetch (m_cacheKey e) (num_or (m_cacheTime e) (cacheTime opts)) (queryArgs p)"
  show ?case
  proof (cases "m_model x = mdl")
    case True
    then have "x = e"
      using Cons.prems(3) by simp
    then have step: "models_callback opts p mdl x w = cache_define mdl ?f w"
      using True Cons.prems(1,2,4) by (simp add: models_callback_def)
    show ?thesis
    proof (cases "cache_define mdl ?f w")
      case (Inl err)
      then show ?thesis using step by simp
    next
      case (Inr w1)
      then have "cache w1 mdl = Some ?f"
        by (auto simp add: cache_define_def split: option.splits if_splits)
      then have "forEach (models_callback opts p mdl) xs w1 = Inr w1"
        by (simp add: forEach_models_callback_set property_Function)
      then show ?thesis using step Inr by simp
    qed
  next
    case False
    then have "models_callback opts p mdl x w = Inr w"
      by (simp add: models_callback_def)
    moreover have "find (\<lambda>e. m_model e = mdl) xs = Some e"
      using False Cons.prems(3) by simp
    ultimately show ?thesis
      using Cons.IH [OF Cons.prems(1,2) _ Cons.prems(4)] by simp
  qed
qed

lemma defining_entry:
  assumes "property w mdl = None" and "mdl \<notin> set (excludeModels opts)"
    and "operation p \<notin> set (excludedCacheMethods cm opts)"
    and "find (\<lambda>e. m_model e = mdl) (models opts) = Some e"
    and "\<not> js_includes (m_excludeMethods e) (operation p)"
  shows "defining cm opts p mdl w =
           cache_define mdl
             (modelsFetch (m_cacheKey e) (num_or (m_cacheTime e) (cacheTime opts)) (queryArgs p)) w"
proof -
  let ?f = "modelsFetch (m_cacheKey e) (num_or (m_cacheTime e) (cacheTime opts)) (queryArgs p)"
  have fe: "forEach (models_callback opts p mdl) (models opts) w = cache_define mdl ?f w"
    using forEach_models_first [OF assms(1,2,4,5)] .
  show ?thesis
  proof (cases "cache_define mdl ?f w")
    case (Inl err)
    then show ?thesis using fe assms(3) by (simp add: defining_def)
  next
    case (Inr w1)
    then have "cache w1 mdl = Some ?f"
      by (auto simp add: cache_define_def split: option.splits if_splits)
    then have "define_default opts p mdl w1 = Inr w1"
      by (simp add: define_default_set property_Function)
    then show ?thesis using fe Inr assms(3) by (simp add: defining_def)
  qed
qed

text \<open>A negative \<^verbatim>\<open>cacheTime\<close> of the entry makes \<^verbatim>\<open>cache.define\<close> throw: the operation,
  read or write, is rejected before the executor is called.\<close>

lemma negative_cacheTime_rejects:
  assumes "model p = Some M" and "M \<noteq> []"
    and "property w M = None" and "M \<notin> set (excludeModels opts)"
    and "operation p \<notin> set (excludedCacheMethods cm opts)"
    and "find (\<lambda>e. m_model e = M) (models opts) = Some e"
    and "\<not> js_includes (m_excludeMethods e) (operation p)"
    and "m_cacheTime e = Some t" and "t < 0"
  shows "allOperations cm env opts p w =
           (Inl (Error ''ttl must be a positive integer greater than 0''), w)"
proof -
  have t: "truthy (model p)" and m: "template (model p) = M"
    using assms(1,2) by (simp_all add: truthy_def template_def)
  have "defining cm opts p M w = Inl (Error ''ttl must be a positive integer greater than 0'')"
    using defining_entry [OF assms(3-7)] assms(8,9) by (simp add: cache_define_def num_or_def)
  then show ?thesis
    using t m by (simp add: allOperations_def Let_def)
qed

subsection \<open>The cache branch\<close>

lemma uncached_read:
  "operation p \<notin> set (defaultMutationMethods cm) \<Longrightarrow>
   uncached cm env opts p mdl w = fetchFromPrisma env p (queryArgs p) w"
  by (simp add: uncached_def split: prod.splits sum.splits)

lemma cached_rejected:
  assumes "call env opts p mdl c w = (Inl err, w1)"
  shows "fst (cached env opts p mdl c w) = fst (query env (model p) (operation p) (queryArgs p) (db w1))
       \<and> db (snd (cached env opts p mdl c w)) = snd (query env (model p) (operation p) (queryArgs p) (db w1))
       \<and> store (snd (cached env opts p mdl c w)) = store w1
       \<and> (\<exists>evs. trace (snd (cached env opts p mdl c w)) =
             trace w1 @ Query (model p) (operation p) (queryArgs p) # evs \<and> filter is_query evs = []
               \<and> filter is_cache_call evs = [] \<and> filter is_purge evs = [])"
  using assms
  by (cases "fst (query env (model p) (operation p) (queryArgs p) (db w1))")
     (simp_all add: cached_def fetchFromPrisma_eq emit_def)

lemma cached_fulfilled:
  "fst (call env opts p mdl c w) = Inr v \<Longrightarrow>
   cached env opts p mdl c w = (Inr v, snd (call env opts p mdl c w))"
  by (cases "call env opts p mdl c w") (simp add: cached_def)

lemma cacheFunction_stores:
  assumes "lib_get env mdl (queryArgs p) (store w) = Miss"
    and "fst (query env (model p) (operation p)
           (fetch_args f \<lparr>a_args = None, a_queryArgs = queryArgs p, a_model = None\<rparr>) (db w)) = Inr v"
  shows "fst (cacheFunction env opts p mdl f w) = Inr v
       \<and> store (snd (cacheFunction env opts p mdl f w)) =
           lib_set env mdl (queryArgs p) v
             (case ttl_option f of Some t \<Rightarrow> t | None \<Rightarrow> cacheTime opts)
             (references f \<lparr>a_args = None, a_queryArgs = queryArgs p, a_model = None\<rparr>
                (lib_key env (queryArgs p)))
             (store w)
       \<and> trace (snd (cacheFunction env opts p mdl f w)) =
           trace w @ [CacheCall mdl (queryArgs p),
                      Query (model p) (operation p)
                        (fetch_args f \<lparr>a_args = None, a_queryArgs = queryArgs p, a_model = None\<rparr>)]"
  using assms by (simp add: cacheFunction_def fetchFromPrisma_eq emit_def Let_def)

lemma allOperations_cached:
  assumes "truthy (model p)"
    and "template (model p) \<notin> set (excludeModels opts)"
    and "operation p \<notin> set (excludedCacheMethods cm opts)"
    and "operation p \<notin> set (defaultMutationMethods cm)"
    and "defining cm opts p (template (model p)) w = Inr w1"
    and "cache w1 (template (model p)) = Some f"
  shows "allOperations cm env opts p w = cached env opts p (template (model p)) (Function f) w1"
  using assms by (simp add: allOperations_def Let_def property_Function)

lemma call_cache: "cache (snd (call env opts p mdl c w)) = cache w"
proof (cases c)
  case (Function f)
  then show ?thesis
    by (cases "lib_get env mdl (queryArgs p) (store w)";
        cases "fst (query env (model p) (operation p)
                 (fetch_args f \<lparr>a_args = None, a_queryArgs = queryArgs p, a_model = None\<rparr>) (db w))")
      (simp_all add: call_def cacheFunction_def fetchFromPrisma_eq emit_def Let_def)
next
  case Member
  then show ?thesis
    by (simp add: call_def emit_def split: prod.splits)
qed

lemma cached_cache: "cache (snd (cached env opts p mdl c w)) = cache w"
proof -
  obtain r w1 where c: "call env opts p mdl c w = (r, w1)"
    by (cases "call env opts p mdl c w")
  then have w1: "cache w1 = cache w"
    using call_cache [of env opts p mdl c w] by simp
  show ?thesis
    using c w1
    by (cases r; cases "fst (query env (model p) (operation p) (queryArgs p) (db w1))")
      (simp_all add: cached_def fetchFromPrisma_eq emit_def)
qed

lemma uncached_cache: "cache (snd (uncached cm env opts p mdl w)) = cache w"
proof -
  obtain r w1 where f: "fetchFromPrisma env p (queryArgs p) w = (r, w1)"
    by (cases "fetchFromPrisma env p (queryArgs p) w")
  then have w1: "cache w1 = cache w"
    by (auto simp add: fetchFromPrisma_eq)
  show ?thesis
    using f w1 run_purges_frame [of env "invalidateList env opts mdl" w1]
    by (cases r) (simp_all add: uncached_def)
qed

lemma allOperations_cache:
  "truthy (model p) \<Longrightarrow> defining cm opts p (template (model p)) w = Inr w1 \<Longrightarrow>
   cache (snd (allOperations cm env opts p w)) = cache w1"
  by (simp add: allOperations_def Let_def cached_cache uncached_cache split: option.splits)

text \<open>A read that misses and whose executor call fails: the rejection of the cache
  function is caught and the executor is called again.\<close>

lemma failed_miss_run:
  assumes "model p = Some M" and "M \<noteq> []"
    and "M \<notin> set (excludeModels opts)"
    and "operation p \<notin> set (excludedCacheMethods cm opts)"
    and "operation p \<notin> set (defaultMutationMethods cm)"
    and "cache (define_functions cm opts p M w) M = Some f"
    and "lib_get env M (queryArgs p) (store w) = Miss"
    and "query env (model p) (operation p)
           (fetch_args f \<lparr>a_args = None, a_queryArgs = queryArgs p, a_model = None\<rparr>) (db w)
         = (Inl err, d)"
  shows "fst (allOperations cm env opts p w) =
           fst (query env (model p) (operation p) (queryArgs p) d)
       \<and> filter is_query (issued cm env opts p w) =
           [Query (model p) (operation p)
              (fetch_args f \<lparr>a_args = None, a_queryArgs = queryArgs p, a_model = None\<rparr>),
            Query (model p) (operation p) (queryArgs p)]
       \<and> store (snd (allOperations cm env opts p w)) = store w"
proof -
  let ?a = "\<lparr>a_args = None, a_queryArgs = queryArgs p, a_model = None\<rparr>"
  let ?w1 = "define_functions cm opts p M w"
  let ?w2 = "emit (Query (model p) (operation p) (fetch_args f ?a))
               ((emit (CacheCall M (queryArgs p)) ?w1)\<lparr>db := d\<rparr>)"
  have t: "truthy (model p)" and m: "template (model p) = M"
    using assms(1,2) by (simp_all add: truthy_def template_def)
  have fr: "db ?w1 = db w" "store ?w1 = store w" "trace ?w1 = trace w"
    by (simp_all add: define_functions_frame)
  have d: "defining cm opts p M w = Inr ?w1"
    using defining_define_functions [OF assms(6)] .
  have all: "allOperations cm env opts p w = cached env opts p M (Function f) ?w1"
    using allOperations_cached [OF t, of opts cm w ?w1 f env] m assms(3-6) d by simp
  have rej: "call env opts p M (Function f) ?w1 = (Inl err, ?w2)"
    using assms(7,8) fr
    by (simp add: call_def cacheFunction_def fetchFromPrisma_def emit_def Let_def)
  have w2: "db ?w2 = d" "store ?w2 = store w"
    "trace ?w2 = trace w @ [CacheCall M (queryArgs p), Query (model p) (operation p) (fetch_args f ?a)]"
    using fr by (simp_all add: emit_def)
  from cached_rejected [OF rej] obtain evs where
    c: "fst (cached env opts p M (Function f) ?w1) =
          fst (query env (model p) (operation p) (queryArgs p) (db ?w2))"
       "store (snd (cached env opts p M (Function f) ?w1)) = store ?w2"
       "trace (snd (cached env opts p M (Function f) ?w1)) =
          trace ?w2 @ Query (model p) (operation p) (queryArgs p) # evs"
       "filter is_query evs = []"
    by blast
  show ?thesis
    using all c w2 by (simp add: issued_def)
qed

text \<open>An operation on an excluded model, or with a method of the global exclusion list
  that is a cache method, goes to the executor and to nothing else.\<close>

lemma excluded_globally_direct:
  assumes "truthy (model p)"
    and "template (model p) \<in> set (excludeModels opts)
         \<or> operation p \<in> set (excludedCacheMethods cm opts)"
    and "operation p \<notin> set (defaultMutationMethods cm)"
  shows "fst (allOperations cm env opts p w) =
           fst (query env (model p) (operation p) (queryArgs p) (db w))
       \<and> issued cm env opts p w = [Query (model p) (operation p) (queryArgs p)]
       \<and> store (snd (allOperations cm env opts p w)) = store w"
proof -
  let ?mdl = "template (model p)"
  have fe: "forEach (models_callback opts p ?mdl) es w = Inr w"
    if "?mdl \<in> set (excludeModels opts)" for es
    using that by (induction es) (simp_all add: models_callback_def)
  have d: "defining cm opts p ?mdl w = Inr w"
    using assms(2) fe by (auto simp add: defining_def define_default_def)
  have "allOperations cm env opts p w = fetchFromPrisma env p (queryArgs p) w"
    using assms d by (auto simp add: allOperations_def Let_def uncached_read split: option.splits)
  then show ?thesis
    by (simp add: fetchFromPrisma_eq issued_def)
qed

text \<open>For a model that is not listed in \<^verbatim>\<open>models\<close> the function is \<^verbatim>\<open>modelFetch\<close>, which
  takes \<^verbatim>\<open>queryArgs\<close> from the call: a read that misses gets the rows of its own
  arguments.\<close>

lemma unreachable_store_default_function:
  assumes "model p = Some M" and "M \<noteq> []"
    and "M \<notin> set (excludeModels opts)"
    and "operation p \<notin> set (excludedCacheMethods cm opts)"
    and "operation p \<notin> set (defaultMutationMethods cm)"
    and "cache w M = Some modelFetch"
    and "lib_get env M (queryArgs p) (store w) = Miss"
    and "query env (model p) (operation p) (queryArgs p) (db w) = (Inr v, d)"
  shows "fst (allOperations cm env opts p w) = Inr v
       \<and> filter is_query (issued cm env opts p w) = [Query (model p) (operation p) (queryArgs p)]"
proof -
  have t: "truthy (model p)" and m: "template (model p) = M"
    using assms(1,2) by (simp_all add: truthy_def template_def)
  have d: "defining cm opts p M w = Inr w"
    using assms(6) by (simp add: defining_set property_Function)
  have all: "allOperations cm env opts p w = cached env opts p M (Function modelFetch) w"
    using allOperations_cached [OF t, of opts cm w w modelFetch env] m assms(3-6) d by simp
  have q: "fst (query env (model p) (operation p)
             (fetch_args modelFetch \<lparr>a_args = None, a_queryArgs = queryArgs p, a_model = None\<rparr>)
             (db w)) = Inr v"
    using assms(8) by simp
  note st = cacheFunction_stores [OF assms(7) q, of opts]
  have c: "fst (call env opts p M (Function modelFetch) w) = Inr v"
    using st by (simp add: call_def)
  have "trace (snd (allOperations cm env opts p w)) =
          trace w @ [CacheCall M (queryArgs p), Query (model p) (operation p) (queryArgs p)]"
    using all cached_fulfilled [OF c] st by (simp add: call_def)
  moreover have "fst (allOperations cm env opts p w) = Inr v"
    using all cached_fulfilled [OF c] by simp
  ultimately show ?thesis
    by (simp add: issued_def)
qed

text \<open>The definitions an evaluation on the example environment unfolds.\<close>

lemmas example_defs =
  issued_def allOperations_def defining_def define_functions_def define_default_def property_def
  excludedCacheMethods_def excludedCacheMethodsInModels_def cache_define_def cached_def uncached_def
  call_def models_callback_def js_includes_def has_length_def num_or_def str_or_def
  cacheFunction_def fetchFromPrisma_def emit_def truthy_def template_def Let_def
  invalidateList_def entry_purges_def related_purges_def custom_purges_def redis_client_def
  run_purges_def quoted_def lower_char_def
  example_env_def example_methods_def example_options_def example_world_def entry_def
  PrismaQueryAction_def PrismaMutationAction_def findMany_User_def

subsection \<open>Operations without a model\<close>

text \<open>  C8. When the operation has no model (it is undefined, or the empty string, which is
  falsy as well), the hook returns \<^verbatim>\<open>query(queryArgs)\<close> at once: the outcome is the
  executor's, and the only changes of the state are the executor's own change of the
  database and one \<open>Query\<close> event. The cache backend and the functions defined on the
  cache object are as before; no cache call and no purge is recorded.\<close>

theorem C8_no_model_calls_executor_only:
  assumes "\<not> truthy (model p)"
  shows "allOperations cm env opts p w =
           (fst (query env (model p) (operation p) (queryArgs p) (db w)),
            w\<lparr>db := snd (query env (model p) (operation p) (queryArgs p) (db w)),
              trace := trace w @ [Query (model p) (operation p) (queryArgs p)]\<rparr>)"
  using assms by (simp add: allOperations_def fetchFromPrisma_eq)

text \<open>A raw query on a backend that holds an entry.\<close>

theorem C8_no_model_calls_executor_only_witness:
  "\<not> truthy None \<and>
   allOperations example_methods example_env example_options
     \<lparr>queryArgs = ''SELECT 1'', model = None, operation = ''queryRaw''\<rparr>
     (example_world\<lparr>store := [(''User~{}'', ''rows'', 60, [''User~{}''])]\<rparr>) =
   (Inr ''queryRaw:SELECT 1'',
    example_world\<lparr>db := 1, store := [(''User~{}'', ''rows'', 60, [''User~{}''])],
      trace := [Query None ''queryRaw'' ''SELECT 1'']\<rparr>)"
  using C8_no_model_calls_executor_only
    [of "\<lparr>queryArgs = ''SELECT 1'', model = None, operation = ''queryRaw''\<rparr>"
        example_methods example_env example_options
        "example_world\<lparr>store := [(''User~{}'', ''rows'', 60, [''User~{}''])]\<rparr>"]
  by (simp add: truthy_def example_env_def example_world_def)

text \<open>  C9. A mutation without a model (a raw write such as \<^verbatim>\<open>executeRawUnsafe\<close>) invalidates
  nothing: the backend is the one before the call, so is the table of defined cache
  functions, every lookup answers as it did before, and the call issues no purge.\<close>

theorem C9_raw_mutation_leaves_cache:
  assumes "\<not> truthy (model p)"
    and "operation p \<in> set (defaultMutationMethods cm)"
  shows "store (snd (allOperations cm env opts p w)) = store w
       \<and> cache (snd (allOperations cm env opts p w)) = cache w
       \<and> (\<forall>name a. lib_get env name a (store (snd (allOperations cm env opts p w)))
                      = lib_get env name a (store w))
       \<and> filter is_purge (issued cm env opts p w) = []"
  using assms(1) by (simp add: allOperations_def fetchFromPrisma_eq issued_def)

text \<open>After a raw delete, the entry stored before is still a hit.\<close>

theorem C9_raw_mutation_leaves_cache_witness:
  "store (snd (allOperations example_methods example_env example_options
       \<lparr>queryArgs = ''DELETE FROM User'', model = None, operation = ''executeRawUnsafe''\<rparr>
       (example_world\<lparr>store := [(''User~{}'', ''rows'', 60, [''User~{}''])]\<rparr>))) = [(''User~{}'', ''rows'', 60, [''User~{}''])]
   \<and> lib_get example_env ''User'' ''{}''
        (store (snd (allOperations example_methods example_env example_options
          \<lparr>queryArgs = ''DELETE FROM User'', model = None, operation = ''executeRawUnsafe''\<rparr>
          (example_world\<lparr>store := [(''User~{}'', ''rows'', 60, [''User~{}''])]\<rparr>)))) = Hit ''rows''"
proof -
  let ?p = "\<lparr>queryArgs = ''DELETE FROM User'', model = None, operation = ''executeRawUnsafe''\<rparr>"
  have h1: "\<not> truthy (model ?p)"
    by (simp add: truthy_def)
  have h2: "operation ?p \<in> set (defaultMutationMethods example_methods)"
    by (simp add: example_methods_def PrismaMutationAction_def)
  show ?thesis
    using C9_raw_mutation_leaves_cache [OF h1 h2, of example_env example_options
        "example_world\<lparr>store := [(''User~{}'', ''rows'', 60, [''User~{}''])]\<rparr>"]
    by (simp add: example_env_def example_world_def)
qed

subsection \<open>Exclusion by a model's own list\<close>

text \<open>  C1 asks that an operation excluded by policy always goes to the executor and never
  touches the cache. For the list of excluded models, and for the methods of the global
  list that are cache methods, that is \<open>excluded_globally_direct\<close>. For the list of a
  \<^verbatim>\<open>models\<close> entry the hook only refrains from defining a cache function; once another
  operation has defined the function of the model, the excluded operation is served
  through it. The theorem states what the hook does then: with the function defined and
  an entry stored under the key of the call, the excluded operation returns the stored
  value, the executor is not called, and the only event is the cache call.\<close>

theorem C1_excluded_in_models_still_cached:
  assumes "model p = Some M" and "M \<noteq> []"
    and "e \<in> set (models opts)" and "m_model e = M"
    and "js_includes (m_excludeMethods e) (operation p)"
    and "M \<notin> set (excludeModels opts)"
    and "operation p \<notin> set (excludedCacheMethods cm opts)"
    and "operation p \<notin> set (defaultMutationMethods cm)"
    and "cache w M = Some f"
    and "lib_get env M (queryArgs p) (store w) = Hit v"
  shows "allOperations cm env opts p w = (Inr v, emit (CacheCall M (queryArgs p)) w)"
proof -
  have t: "truthy (model p)" and m: "template (model p) = M"
    using assms(1,2) by (simp_all add: truthy_def template_def)
  have d: "defining cm opts p M w = Inr w"
    using assms(9) by (simp add: defining_set property_Function)
  have "allOperations cm env opts p w = cached env opts p M (Function f) w"
    using allOperations_cached [OF t, of opts cm w w f env] m assms(6-9) d by simp
  moreover have "call env opts p M (Function f) w = (Inr v, emit (CacheCall M (queryArgs p)) w)"
    using assms(10) by (simp add: call_def cacheFunction_def Let_def emit_def)
  ultimately show ?thesis
    by (simp add: cached_def)
qed

text \<open>With \<^verbatim>\<open>count\<close> excluded for \<open>User\<close>: a \<^verbatim>\<open>findMany\<close> defines the cache function and
  stores its rows; the \<^verbatim>\<open>count\<close> that follows with the same arguments returns those rows
  from the cache, and the database is not asked.\<close>

theorem C1_excluded_in_models_still_cached_witness:
  "allOperations example_methods example_env count_excluded_options count_User
     (snd (allOperations example_methods example_env count_excluded_options findMany_User
        example_world))
   = (Inr ''findMany:{}'',
      example_world\<lparr>db := 1, store := [(''User~{}'', ''findMany:{}'', 60, [''undefined~{}''])],
        cache := [''User'' \<mapsto> modelsFetch None 60 ''{}''],
        trace := [CacheCall ''User'' ''{}'', Query (Some ''User'') ''findMany'' ''{}'',
                  CacheCall ''User'' ''{}'']\<rparr>)"
proof -
  let ?e = "(entry ''User'')\<lparr>m_excludeMethods := Some [''count'']\<rparr>"
  let ?w = "snd (allOperations example_methods example_env count_excluded_options findMany_User
        example_world)"
  have w: "?w = example_world\<lparr>db := 1,
        store := [(''User~{}'', ''findMany:{}'', 60, [''undefined~{}''])],
        cache := [''User'' \<mapsto> modelsFetch None 60 ''{}''],
        trace := [CacheCall ''User'' ''{}'', Query (Some ''User'') ''findMany'' ''{}'']\<rparr>"
    by (simp add: example_defs count_excluded_options_def)
  have h1: "model count_User = Some ''User''" and h2: "''User'' \<noteq> []"
    by (simp_all add: count_User_def)
  have h3: "?e \<in> set (models count_excluded_options)"
    by (simp add: count_excluded_options_def)
  have h4: "m_model ?e = ''User''"
    by (simp add: entry_def)
  have h5: "js_includes (m_excludeMethods ?e) (operation count_User)"
    by (simp add: js_includes_def count_User_def)
  have h6: "''User'' \<notin> set (excludeModels count_excluded_options)"
    by (simp add: count_excluded_options_def example_options_def)
  have h7: "operation count_User \<notin> set (excludedCacheMethods example_methods count_excluded_options)"
    by (simp add: excludedCacheMethods_def count_excluded_options_def example_options_def)
  have h8: "operation count_User \<notin> set (defaultMutationMethods example_methods)"
    by (simp add: count_User_def example_methods_def PrismaMutationAction_def)
  have h9: "cache ?w ''User'' = Some (modelsFetch None 60 ''{}'')"
    unfolding w by simp
  have h10: "lib_get example_env ''User'' (queryArgs count_User) (store ?w) = Hit ''findMany:{}''"
    unfolding w by (simp add: example_env_def count_User_def)
  show ?thesis
    using C1_excluded_in_models_still_cached [OF h1 h2 h3 h4 h5 h6 h7 h8 h9 h10]
    unfolding w by (simp add: emit_def count_User_def example_world_def)
qed

subsection \<open>Reads whose executor call fails\<close>

text \<open>  C5 asks that a failure of the executor on a cache miss reaches the caller unchanged
  without a second call. In the hook the rejection of the cache function is caught
  whatever its cause, so the executor is called a second time, directly, and the caller
  gets the outcome of that second call. Nothing is stored.\<close>

theorem C5_failed_miss_calls_executor_again:
  assumes "model p = Some M" and "M \<noteq> []"
    and "M \<notin> set (excludeModels opts)"
    and "operation p \<notin> set (excludedCacheMethods cm opts)"
    and "operation p \<notin> set (defaultMutationMethods cm)"
    and "cache (define_functions cm opts p M w) M = Some f"
    and "lib_get env M (queryArgs p) (store w) = Miss"
    and "query env (model p) (operation p)
           (fetch_args f \<lparr>a_args = None, a_queryArgs = queryArgs p, a_model = None\<rparr>) (db w)
         = (Inl err, d)"
  shows "fst (allOperations cm env opts p w) =
           fst (query env (model p) (operation p) (queryArgs p) d)
       \<and> filter is_query (issued cm env opts p w) =
           [Query (model p) (operation p)
              (fetch_args f \<lparr>a_args = None, a_queryArgs = queryArgs p, a_model = None\<rparr>),
            Query (model p) (operation p) (queryArgs p)]
       \<and> store (snd (allOperations cm env opts p w)) = store w"
  using failed_miss_run [OF assms] .

text \<open>On a database whose first call fails and whose second succeeds, the caller of a read
  receives rows: the failure of the first call only reaches the console.\<close>

theorem C5_failed_miss_calls_executor_again_witness:
  "allOperations example_methods flaky_env example_options findMany_User example_world
   = (Inr ''findMany:{}'',
      example_world\<lparr>db := 2, cache := [''User'' \<mapsto> modelFetch],
        trace := [CacheCall ''User'' ''{}'', Query (Some ''User'') ''findMany'' ''{}'',
                  Query (Some ''User'') ''findMany'' ''{}'', Console (Error ''connection reset'')]\<rparr>)
   \<and> filter is_query
         (issued example_methods flaky_env example_options findMany_User example_world)
       = [Query (Some ''User'') ''findMany'' ''{}'', Query (Some ''User'') ''findMany'' ''{}'']"
proof -
  have h1: "model findMany_User = Some ''User''" and h2: "''User'' \<noteq> []"
    by (simp_all add: findMany_User_def)
  have h3: "''User'' \<notin> set (excludeModels example_options)"
    by (simp add: example_options_def)
  have h4: "operation findMany_User \<notin> set (excludedCacheMethods example_methods example_options)"
    by (simp add: excludedCacheMethods_def example_options_def)
  have h5: "operation findMany_User \<notin> set (defaultMutationMethods example_methods)"
    by (simp add: findMany_User_def example_methods_def PrismaMutationAction_def)
  have h6: "cache (define_functions example_methods example_options findMany_User ''User''
              example_world) ''User'' = Some modelFetch"
    by (simp add: example_defs)
  have h7: "lib_get flaky_env ''User'' (queryArgs findMany_User) (store example_world) = Miss"
    by (simp add: flaky_env_def example_env_def example_world_def)
  have h8: "query flaky_env (model findMany_User) (operation findMany_User)
              (fetch_args modelFetch
                 \<lparr>a_args = None, a_queryArgs = queryArgs findMany_User, a_model = None\<rparr>)
              (db example_world)
            = (Inl (Error ''connection reset''), 1)"
    by (simp add: flaky_env_def example_env_def example_world_def)
  have run: "allOperations example_methods flaky_env example_options findMany_User example_world
   = (Inr ''findMany:{}'',
      example_world\<lparr>db := 2, cache := [''User'' \<mapsto> modelFetch],
        trace := [CacheCall ''User'' ''{}'', Query (Some ''User'') ''findMany'' ''{}'',
                  Query (Some ''User'') ''findMany'' ''{}'', Console (Error ''connection reset'')]\<rparr>)"
    by (simp add: example_defs flaky_env_def)
  show ?thesis
    using C5_failed_miss_calls_executor_again [OF h1 h2 h3 h4 h5 h6 h7 h8] run
    by (simp add: findMany_User_def)
qed

text \<open>  C10 asks that N reads in flight with one key make one executor call between them and
  that every caller receives that call's value or failure. The case of one read needs no
  interleaving, and there the hook already does otherwise: a single read that misses and
  whose executor call fails makes two executor calls, and its caller receives the outcome
  of the second. Every caller that joined the call in flight runs the same
  \<^verbatim>\<open>catch\<close> and calls the executor again for itself.\<close>

theorem C10_single_read_two_executor_calls:
  assumes "model p = Some M" and "M \<noteq> []"
    and "M \<notin> set (excludeModels opts)"
    and "operation p \<notin> set (excludedCacheMethods cm opts)"
    and "operation p \<notin> set (defaultMutationMethods cm)"
    and "cache (define_functions cm opts p M w) M = Some f"
    and "lib_get env M (queryArgs p) (store w) = Miss"
    and "query env (model p) (operation p)
           (fetch_args f \<lparr>a_args = None, a_queryArgs = queryArgs p, a_model = None\<rparr>) (db w)
         = (Inl err, d)"
  shows "length (filter is_query (issued cm env opts p w)) = 2
       \<and> fst (allOperations cm env opts p w) =
           fst (query env (model p) (operation p) (queryArgs p) d)"
  using failed_miss_run [OF assms] by simp

text \<open>On a database that always fails, one read asks it twice and its caller receives the
  second failure, not the first.\<close>

theorem C10_single_read_two_executor_calls_witness:
  "length (filter is_query
      (issued example_methods failing_env example_options findMany_User example_world)) = 2
   \<and> fst (allOperations example_methods failing_env example_options findMany_User example_world)
       = Inl (Error ''later failure'')"
proof -
  have h1: "model findMany_User = Some ''User''" and h2: "''User'' \<noteq> []"
    by (simp_all add: findMany_User_def)
  have h3: "''User'' \<notin> set (excludeModels example_options)"
    by (simp add: example_options_def)
  have h4: "operation findMany_User \<notin> set (excludedCacheMethods example_methods example_options)"
    by (simp add: excludedCacheMethods_def example_options_def)
  have h5: "operation findMany_User \<notin> set (defaultMutationMethods example_methods)"
    by (simp add: findMany_User_def example_methods_def PrismaMutationAction_def)
  have h6: "cache (define_functions example_methods example_options findMany_User ''User''
              example_world) ''User'' = Some modelFetch"
    by (simp add: example_defs)
  have h7: "lib_get failing_env ''User'' (queryArgs findMany_User) (store example_world) = Miss"
    by (simp add: failing_env_def example_env_def example_world_def)
  have h8: "query failing_env (model findMany_User) (operation findMany_User)
              (fetch_args modelFetch
                 \<lparr>a_args = None, a_queryArgs = queryArgs findMany_User, a_model = None\<rparr>)
              (db example_world)
            = (Inl (Error ''first failure''), 1)"
    by (simp add: failing_env_def example_env_def example_world_def)
  show ?thesis
    using C10_single_read_two_executor_calls [OF h1 h2 h3 h4 h5 h6 h7 h8]
    by (simp add: failing_env_def example_env_def findMany_User_def)
qed

subsection \<open>Reads when the cache store cannot be reached\<close>

text \<open>  C6 asks that a read still returns the executor's result for the operation when the
  cache backend fails. The library presents a store it cannot reach as a miss and runs
  the defined function. For a model listed in \<^verbatim>\<open>models\<close> that function is \<^verbatim>\<open>modelsFetch\<close>,
  whose \<^verbatim>\<open>queryArgs\<close> is the variable of the call that defined it: the executor is asked
  for the arguments of that earlier call, and the read returns their rows. (For a model
  that is not listed, \<open>unreachable_store_default_function\<close> gives the rows of the read.)\<close>

theorem C6_unreachable_store_runs_captured_query:
  assumes "model p = Some M" and "M \<noteq> []"
    and "M \<notin> set (excludeModels opts)"
    and "operation p \<notin> set (excludedCacheMethods cm opts)"
    and "operation p \<notin> set (defaultMutationMethods cm)"
    and "cache w M = Some (modelsFetch k t captured)"
    and "lib_get env M (queryArgs p) (store w) = Miss"
    and "query env (model p) (operation p) captured (db w) = (Inr v, d)"
  shows "fst (allOperations cm env opts p w) = Inr v
       \<and> filter is_query (issued cm env opts p w) = [Query (model p) (operation p) captured]"
proof -
  let ?f = "modelsFetch k t captured"
  have t: "truthy (model p)" and m: "template (model p) = M"
    using assms(1,2) by (simp_all add: truthy_def template_def)
  have d: "defining cm opts p M w = Inr w"
    using assms(6) by (simp add: defining_set property_Function)
  have all: "allOperations cm env opts p w = cached env opts p M (Function ?f) w"
    using allOperations_cached [OF t, of opts cm w w ?f env] m assms(3-6) d by simp
  have q: "fst (query env (model p) (operation p)
             (fetch_args ?f \<lparr>a_args = None, a_queryArgs = queryArgs p, a_model = None\<rparr>) (db w))
           = Inr v"
    using assms(8) by simp
  note st = cacheFunction_stores [OF assms(7) q, of opts]
  have c: "fst (call env opts p M (Function ?f) w) = Inr v"
    using st by (simp add: call_def)
  have "trace (snd (allOperations cm env opts p w)) =
          trace w @ [CacheCall M (queryArgs p), Query (model p) (operation p) captured]"
    using all cached_fulfilled [OF c] st by (simp add: call_def)
  moreover have "fst (allOperations cm env opts p w) = Inr v"
    using all cached_fulfilled [OF c] by simp
  ultimately show ?thesis
    by (simp add: issued_def)
qed

text \<open>With the store down and \<open>User\<close> listed in \<^verbatim>\<open>models\<close>, a read for \<^verbatim>\<open>id=1\<close> defines the
  function; the read for \<^verbatim>\<open>id=2\<close> that follows asks the database for \<^verbatim>\<open>id=1\<close> and returns
  those rows.\<close>

theorem C6_unreachable_store_runs_captured_query_witness:
  "allOperations example_methods store_down_env listed_options find_second
     (snd (allOperations example_methods store_down_env listed_options find_first example_world))
   = (Inr ''findMany:id=1'',
      example_world\<lparr>db := 2, cache := [''User'' \<mapsto> modelsFetch None 60 ''id=1''],
        trace := [CacheCall ''User'' ''id=1'', Query (Some ''User'') ''findMany'' ''id=1'',
                  CacheCall ''User'' ''id=2'', Query (Some ''User'') ''findMany'' ''id=1'']\<rparr>)"
proof -
  let ?w = "snd (allOperations example_methods store_down_env listed_options find_first
              example_world)"
  have w: "?w = example_world\<lparr>db := 1, cache := [''User'' \<mapsto> modelsFetch None 60 ''id=1''],
        trace := [CacheCall ''User'' ''id=1'', Query (Some ''User'') ''findMany'' ''id=1'']\<rparr>"
    by (simp add: example_defs store_down_env_def listed_options_def find_first_def)
  have h1: "model find_second = Some ''User''" and h2: "''User'' \<noteq> []"
    by (simp_all add: find_second_def)
  have h3: "''User'' \<notin> set (excludeModels listed_options)"
    by (simp add: listed_options_def example_options_def)
  have h4: "operation find_second \<notin> set (excludedCacheMethods example_methods listed_options)"
    by (simp add: excludedCacheMethods_def listed_options_def example_options_def)
  have h5: "operation find_second \<notin> set (defaultMutationMethods example_methods)"
    by (simp add: find_second_def example_methods_def PrismaMutationAction_def)
  have h6: "cache ?w ''User'' = Some (modelsFetch None 60 ''id=1'')"
    unfolding w by simp
  have h7: "lib_get store_down_env ''User'' (queryArgs find_second) (store ?w) = Miss"
    by (simp add: store_down_env_def)
  have h8: "query store_down_env (model find_second) (operation find_second) ''id=1'' (db ?w)
              = (Inr ''findMany:id=1'', 2)"
    unfolding w by (simp add: store_down_env_def example_env_def find_second_def)
  have r: "fst (allOperations example_methods store_down_env listed_options find_second ?w)
             = Inr ''findMany:id=1''"
    using C6_unreachable_store_runs_captured_query [OF h1 h2 h3 h4 h5 h6 h7 h8] by simp
  have run: "snd (allOperations example_methods store_down_env listed_options find_second ?w)
     = example_world\<lparr>db := 2, cache := [''User'' \<mapsto> modelsFetch None 60 ''id=1''],
        trace := [CacheCall ''User'' ''id=1'', Query (Some ''User'') ''findMany'' ''id=1'',
                  CacheCall ''User'' ''id=2'', Query (Some ''User'') ''findMany'' ''id=1'']\<rparr>"
    unfolding w
    by (simp add: example_defs store_down_env_def listed_options_def find_second_def)
  show ?thesis
    using r run by (simp add: prod_eq_iff)
qed

subsection \<open>Invalidation after a write\<close>

text \<open>  C2, as the code has it. A write on a model \<open>M\<close> that returns a result has issued
  \<^verbatim>\<open>cache.invalidateAll\<close> for both \<^verbatim>\<open>*M~*\<close> and \<^verbatim>\<open>M~*\<close>. It has issued \<^verbatim>\<open>redis.del\<close> for
  \<^verbatim>\<open>*M~*\<close> exactly when the storage is Redis with a client; and it has issued
  \<^verbatim>\<open>redis.del\<close> for \<^verbatim>\<open>M~*\<close> exactly when, in addition, an entry of \<^verbatim>\<open>models\<close> for \<open>M\<close>
  lists that very string in its \<^verbatim>\<open>customInvalidate\<close>: the direct purge itself never sends
  \<^verbatim>\<open>M~*\<close> to the raw store.\<close>

theorem C2_direct_purges:
  assumes "model p = Some M" and "M \<noteq> []"
    and "operation p \<in> set (defaultMutationMethods cm)"
    and "fst (allOperations cm env opts p w) = Inr v"
  shows "InvalidateAll (''*'' @ M @ ''~*'') \<in> set (issued cm env opts p w)
       \<and> InvalidateAll (M @ ''~*'') \<in> set (issued cm env opts p w)
       \<and> (RedisDel (''*'' @ M @ ''~*'') \<in> set (issued cm env opts p w)
            \<longleftrightarrow> storage opts = Some (Redis True))
       \<and> (RedisDel (M @ ''~*'') \<in> set (issued cm env opts p w)
            \<longleftrightarrow> storage opts = Some (Redis True)
                \<and> (\<exists>e\<in>set (models opts). m_model e = M
                     \<and> (\<exists>cs. m_customInvalidate e = Some cs \<and> M @ ''~*'' \<in> set cs)))"
proof -
  have t: "truthy (model p)" and m: "template (model p) = M"
    using assms(1,2) by (simp_all add: truthy_def template_def)
  note iff = issued_purge_iff [OF t assms(3,4), unfolded m]
  have a: "InvalidateAll (''*'' @ M @ ''~*'') \<in> set (issued cm env opts p w)"
    using iff [of "invalidateAll (''*'' @ M @ ''~*'')"] by (simp add: invalidateList_invalidateAll)
  have b: "InvalidateAll (M @ ''~*'') \<in> set (issued cm env opts p w)"
    using iff [of "invalidateAll (M @ ''~*'')"] by (simp add: invalidateList_invalidateAll)
  have c: "RedisDel (''*'' @ M @ ''~*'') \<in> set (issued cm env opts p w)
             \<longleftrightarrow> storage opts = Some (Redis True)"
    using iff [of "removeFormRedis (''*'' @ M @ ''~*'')"]
    by (simp add: invalidateList_removeFormRedis redis_client_iff)
  have d: "RedisDel (M @ ''~*'') \<in> set (issued cm env opts p w)
            \<longleftrightarrow> storage opts = Some (Redis True)
                \<and> (\<exists>e\<in>set (models opts). m_model e = M
                     \<and> (\<exists>cs. m_customInvalidate e = Some cs \<and> M @ ''~*'' \<in> set cs))"
    using iff [of "removeFormRedis (M @ ''~*'')"]
    by (simp add: invalidateList_removeFormRedis redis_client_iff prefix_pattern_not_starred
        prefix_pattern_not_quoted)
  show ?thesis
    using a b c d by blast
qed

text \<open>A \<^verbatim>\<open>create\<close> on \<open>User\<close> with a Redis client and no entry in \<^verbatim>\<open>models\<close>.\<close>

theorem C2_direct_purges_witness:
  "InvalidateAll ''*User~*''
     \<in> set (issued example_methods example_env redis_options create_User example_world)
   \<and> InvalidateAll ''User~*''
     \<in> set (issued example_methods example_env redis_options create_User example_world)
   \<and> RedisDel ''*User~*''
     \<in> set (issued example_methods example_env redis_options create_User example_world)
   \<and> RedisDel ''User~*''
     \<notin> set (issued example_methods example_env redis_options create_User example_world)"
proof -
  have h1: "model create_User = Some ''User''" and h2: "''User'' \<noteq> []"
    by (simp_all add: create_User_def)
  have h3: "operation create_User \<in> set (defaultMutationMethods example_methods)"
    by (simp add: create_User_def example_methods_def PrismaMutationAction_def)
  have h4: "fst (allOperations example_methods example_env redis_options create_User example_world)
              = Inr ''create:{}''"
    by (simp add: example_defs redis_options_def create_User_def)
  have o: "storage redis_options = Some (Redis True)" "models redis_options = []"
    by (simp_all add: redis_options_def example_options_def)
  show ?thesis
    using C2_direct_purges [OF h1 h2 h3 h4] o by simp
qed

text \<open>  C2 as stated asks for both patterns against the raw Redis store. The hook sends only
  \<^verbatim>\<open>*M~*\<close> there: a successful \<^verbatim>\<open>create\<close> on \<open>User\<close> with a Redis client issues exactly
  the four events below, and no \<^verbatim>\<open>redis.del\<close> of \<^verbatim>\<open>User~*\<close>.\<close>

theorem C2_redis_gets_one_pattern:
  "issued example_methods example_env redis_options create_User example_world
   = [Query (Some ''User'') ''create'' ''{}'', InvalidateAll ''*User~*'', InvalidateAll ''User~*'',
      RedisDel ''*User~*'']
   \<and> RedisDel ''User~*''
       \<notin> set (issued example_methods example_env redis_options create_User example_world)"
  by (simp add: example_defs redis_options_def create_User_def)

text \<open>  C4, as the code has it. A write on \<open>M\<close> that returns a result has issued
  \<^verbatim>\<open>cache.invalidateAll\<close> for a pattern exactly when the pattern is one of these: the
  direct patterns of \<open>M\<close>; the substring patterns of \<open>M\<close>, if the global flag is set; for
  an entry of \<^verbatim>\<open>models\<close> for \<open>M\<close> and a model \<open>R\<close> of its \<^verbatim>\<open>invalidateRelated\<close>, the direct
  patterns \<^verbatim>\<open>*R~*\<close> and \<^verbatim>\<open>R~*\<close>, and the substring patterns of \<open>R\<close> (the quoted name, as
  written and in lower case) if the \<^verbatim>\<open>useContainsInvalidation\<close> flag of that entry, the
  entry of the written model, is set and true, or is not set and the global flag is
  true; a pattern of the entry's \<^verbatim>\<open>customInvalidate\<close>. Entries of other models, the one of
  \<open>R\<close> among them, have no part in it.\<close>

theorem C4_logical_purges:
  assumes "model p = Some M" and "M \<noteq> []"
    and "operation p \<in> set (defaultMutationMethods cm)"
    and "fst (allOperations cm env opts p w) = Inr v"
  shows "InvalidateAll s \<in> set (issued cm env opts p w) \<longleftrightarrow>
     s = ''*'' @ M @ ''~*'' \<or> s = M @ ''~*''
     \<or> (useContainsInvalidation opts \<and> (s = quoted M \<or> s = quoted (toLowerCase env M)))
     \<or> (\<exists>e\<in>set (models opts). m_model e = M \<and>
          ((\<exists>rs. m_invalidateRelated e = Some rs \<and>
              (\<exists>R\<in>set rs. s = ''*'' @ R @ ''~*'' \<or> s = R @ ''~*''
                 \<or> ((case m_useContainsInvalidation e of Some b \<Rightarrow> b
                      | None \<Rightarrow> useContainsInvalidation opts)
                     \<and> (s = quoted R \<or> s = quoted (toLowerCase env R)))))
           \<or> (\<exists>cs. m_customInvalidate e = Some cs \<and> s \<in> set cs)))"
proof -
  have t: "truthy (model p)" and m: "template (model p) = M"
    using assms(1,2) by (simp_all add: truthy_def template_def)
  show ?thesis
    using issued_purge_iff [OF t assms(3,4), of "invalidateAll s", unfolded m]
    by (simp add: invalidateList_invalidateAll)
qed

text \<open>A write on \<open>Post\<close>, whose entry sets the flag and names \<open>Comment\<close>, while the entry of
  \<open>Comment\<close> clears it: the patterns of \<open>Comment\<close> are issued, substring patterns
  included, and no substring pattern of \<open>Post\<close>, since the global flag is off.\<close>

theorem C4_logical_purges_witness:
  "InvalidateAll ''*Comment~*''
     \<in> set (issued example_methods example_env
          (example_options\<lparr>models := blog_models (Some True) (Some False)\<rparr>) update_Post
          example_world)
   \<and> InvalidateAll (quoted ''Comment'')
     \<in> set (issued example_methods example_env
          (example_options\<lparr>models := blog_models (Some True) (Some False)\<rparr>) update_Post
          example_world)
   \<and> InvalidateAll (quoted ''comment'')
     \<in> set (issued example_methods example_env
          (example_options\<lparr>models := blog_models (Some True) (Some False)\<rparr>) update_Post
          example_world)
   \<and> InvalidateAll (quoted ''Post'')
     \<notin> set (issued example_methods example_env
          (example_options\<lparr>models := blog_models (Some True) (Some False)\<rparr>) update_Post
          example_world)"
proof -
  let ?opts = "example_options\<lparr>models := blog_models (Some True) (Some False)\<rparr>"
  have h1: "model update_Post = Some ''Post''" and h2: "''Post'' \<noteq> []"
    by (simp_all add: update_Post_def)
  have h3: "operation update_Post \<in> set (defaultMutationMethods example_methods)"
    by (simp add: update_Post_def example_methods_def PrismaMutationAction_def)
  have h4: "fst (allOperations example_methods example_env ?opts update_Post example_world)
              = Inr ''update:{}''"
    by (simp add: example_defs blog_models_def update_Post_def)
  note c = C4_logical_purges [OF h1 h2 h3 h4]
  have l: "toLowerCase example_env ''Comment'' = ''comment''"
    by (simp add: example_env_def lower_char_def)
  have a: "InvalidateAll ''*Comment~*''
     \<in> set (issued example_methods example_env ?opts update_Post example_world)"
    unfolding c [of "''*Comment~*''"] by (simp add: blog_models_def entry_def)
  have b: "InvalidateAll (quoted ''Comment'')
     \<in> set (issued example_methods example_env ?opts update_Post example_world)"
    unfolding c [of "quoted ''Comment''"] by (simp add: blog_models_def entry_def)
  have d: "InvalidateAll (quoted ''comment'')
     \<in> set (issued example_methods example_env ?opts update_Post example_world)"
    unfolding c [of "quoted ''comment''"] using l by (simp add: blog_models_def entry_def)
  have e: "InvalidateAll (quoted ''Post'')
     \<notin> set (issued example_methods example_env ?opts update_Post example_world)"
    unfolding c [of "quoted ''Post''"] using l
    by (simp add: blog_models_def entry_def example_options_def quoted_def)
  show ?thesis
    using a b d e by simp
qed

text \<open>  C4 as stated lets the flag of the related model's own entry decide. The loop reads the
  flag from the entry of the written model. A write on \<open>Post\<close>, whose entry leaves the flag
  unset while the entry of \<open>Comment\<close> sets it, issues no substring pattern for \<open>Comment\<close>;
  and when the entry of \<open>Post\<close> sets the flag and the entry of \<open>Comment\<close> clears it, the
  pattern is issued.\<close>

theorem C4_flag_of_written_model_decides:
  "issued example_methods example_env (example_options\<lparr>models := blog_models None (Some True)\<rparr>)
     update_Post example_world
   = [Query (Some ''Post'') ''update'' ''{}'', InvalidateAll ''*Post~*'', InvalidateAll ''Post~*'',
      InvalidateAll ''*Comment~*'', InvalidateAll ''Comment~*'']
   \<and> InvalidateAll (quoted ''Comment'')
       \<notin> set (issued example_methods example_env
            (example_options\<lparr>models := blog_models None (Some True)\<rparr>) update_Post example_world)
   \<and> InvalidateAll (quoted ''Comment'')
       \<in> set (issued example_methods example_env
            (example_options\<lparr>models := blog_models (Some True) (Some False)\<rparr>) update_Post
            example_world)"
  by (simp add: example_defs blog_models_def update_Post_def)

text \<open>  C3. For a write on a model: if it returns a result, that is the executor's, the
  executor was called first and once, and every purge of the list was issued after it,
  whatever became of the others. If it is rejected, no purge was issued, the store is
  unchanged, and the error is the executor's (or that of a \<^verbatim>\<open>cache.define\<close> before the
  executor ran), never a purge's. And once the executor has returned a result the write
  returns it: a failure of \<^verbatim>\<open>redis.del\<close> is caught and logged in \<^verbatim>\<open>removeFormRedis\<close>, and the
  library settles \<^verbatim>\<open>cache.invalidateAll\<close> without rejecting. The purges are issued one after
  the other while the list is built and awaited together; the model keeps the order of
  issue.\<close>

theorem C3_purges_follow_the_write:
  assumes "model p = Some M" and "M \<noteq> []"
    and "operation p \<in> set (defaultMutationMethods cm)"
  shows "(\<forall>v. fst (allOperations cm env opts p w) = Inr v \<longrightarrow>
            fst (query env (model p) (operation p) (queryArgs p) (db w)) = Inr v
          \<and> (\<exists>evs. issued cm env opts p w = Query (model p) (operation p) (queryArgs p) # evs
                \<and> filter is_query evs = []
                \<and> filter is_purge evs = map purge_event (invalidateList env opts M)))
       \<and> (\<forall>err. fst (allOperations cm env opts p w) = Inl err \<longrightarrow>
            filter is_purge (issued cm env opts p w) = []
          \<and> store (snd (allOperations cm env opts p w)) = store w
          \<and> (defining cm opts p M w = Inl err
             \<or> fst (query env (model p) (operation p) (queryArgs p) (db w)) = Inl err))
       \<and> (\<forall>w1 v. defining cm opts p M w = Inr w1
            \<and> fst (query env (model p) (operation p) (queryArgs p) (db w)) = Inr v \<longrightarrow>
            fst (allOperations cm env opts p w) = Inr v)"
proof -
  have t: "truthy (model p)" and m: "template (model p) = M"
    using assms(1,2) by (simp_all add: truthy_def template_def)
  have a: "fst (query env (model p) (operation p) (queryArgs p) (db w)) = Inr v
          \<and> (\<exists>evs. issued cm env opts p w = Query (model p) (operation p) (queryArgs p) # evs
                \<and> filter is_query evs = []
                \<and> filter is_purge evs = map purge_event (invalidateList env opts M))"
    if "fst (allOperations cm env opts p w) = Inr v" for v
    using write_fulfilled [OF t assms(3) that] m by simp
  have b: "filter is_purge (issued cm env opts p w) = []
          \<and> store (snd (allOperations cm env opts p w)) = store w
          \<and> (defining cm opts p M w = Inl err
             \<or> fst (query env (model p) (operation p) (queryArgs p) (db w)) = Inl err)"
    if "fst (allOperations cm env opts p w) = Inl err" for err
    using write_rejected [OF t assms(3) that] m by simp
  have c: "fst (allOperations cm env opts p w) = Inr v"
    if d: "defining cm opts p M w = Inr w1"
      and q: "fst (query env (model p) (operation p) (queryArgs p) (db w)) = Inr v" for w1 v
  proof -
    have "db w1 = db w"
      using defining_frame [OF d] by simp
    then show ?thesis
      using t m d q assms(3)
      by (simp add: allOperations_mutation uncached_def fetchFromPrisma_eq)
  qed
  show ?thesis
    using a b c by blast
qed

text \<open>A \<^verbatim>\<open>create\<close> on \<open>User\<close> while \<^verbatim>\<open>redis.del\<close> fails: all three purges are issued, the
  failure goes to the console, and the caller receives the created row.\<close>

theorem C3_purges_follow_the_write_witness:
  "allOperations example_methods failing_redis_env redis_options create_User example_world
   = (Inr ''create:{}'',
      example_world\<lparr>db := 1, cache := [''User'' \<mapsto> modelFetch],
        trace := [Query (Some ''User'') ''create'' ''{}'', InvalidateAll ''*User~*'',
                  InvalidateAll ''User~*'', RedisDel ''*User~*'', Console (Error ''redis down'')]\<rparr>)"
proof -
  have h1: "model create_User = Some ''User''" and h2: "''User'' \<noteq> []"
    by (simp_all add: create_User_def)
  have h3: "operation create_User \<in> set (defaultMutationMethods example_methods)"
    by (simp add: create_User_def example_methods_def PrismaMutationAction_def)
  have d: "defining example_methods redis_options create_User ''User'' example_world
             = Inr (example_world\<lparr>cache := [''User'' \<mapsto> modelFetch]\<rparr>)"
    by (simp add: example_defs redis_options_def create_User_def)
  have q: "fst (query failing_redis_env (model create_User) (operation create_User)
                  (queryArgs create_User) (db example_world)) = Inr ''create:{}''"
    by (simp add: failing_redis_env_def example_env_def create_User_def)
  have r: "fst (allOperations example_methods failing_redis_env redis_options create_User
                  example_world) = Inr ''create:{}''"
    using C3_purges_follow_the_write [OF h1 h2 h3, of failing_redis_env redis_options example_world]
      d q by blast
  have run: "snd (allOperations example_methods failing_redis_env redis_options create_User
                   example_world)
     = example_world\<lparr>db := 1, cache := [''User'' \<mapsto> modelFetch],
        trace := [Query (Some ''User'') ''create'' ''{}'', InvalidateAll ''*User~*'',
                  InvalidateAll ''User~*'', RedisDel ''*User~*'', Console (Error ''redis down'')]\<rparr>"
    by (simp add: example_defs redis_options_def create_User_def failing_redis_env_def)
  show ?thesis
    using r run by (simp add: prod_eq_iff)
qed

subsection \<open>References and ttl of a configured model\<close>

text \<open>  C7, as the code has it. When a call for a model \<open>M\<close> finds \<^verbatim>\<open>cache[M]\<close> unset and the
  first entry of \<^verbatim>\<open>models\<close> for \<open>M\<close> does not exclude the operation, the call defines the
  function from that entry (the default ttl is not negative, or the cache could not have
  been created, and the entry's \<^verbatim>\<open>cacheTime\<close> is taken not to be negative:
  \<open>negative_cacheTime_rejects\<close> is the other case). If the entry has a non-empty
  \<^verbatim>\<open>cacheKey\<close>, the references of the function are the one-element list \<^verbatim>\<open>cacheKey~key\<close>
  for every call argument and key, whatever the entry's related models. The ttl of the
  definition is the entry's \<^verbatim>\<open>cacheTime\<close> when that is positive, and the default ttl when
  it is 0 or absent. A read that misses and whose executor call succeeds hands the
  library exactly these references and this ttl for the entry it stores.\<close>

theorem C7_entry_defines_references_and_ttl:
  assumes "model p = Some M" and "M \<noteq> []"
    and "cache w M = None" and "M \<notin> set (members w)"
    and "M \<notin> set (excludeModels opts)"
    and "operation p \<notin> set (excludedCacheMethods cm opts)"
    and "find (\<lambda>e. m_model e = M) (models opts) = Some e"
    and "\<not> js_includes (m_excludeMethods e) (operation p)"
    and "0 \<le> cacheTime opts"
    and "case m_cacheTime e of None \<Rightarrow> True | Some t \<Rightarrow> 0 \<le> t"
  shows "\<exists>f. cache (snd (allOperations cm env opts p w)) M = Some f
       \<and> (\<forall>k a key. m_cacheKey e = Some k \<and> k \<noteq> [] \<longrightarrow> references f a key = [k @ ''~'' @ key])
       \<and> ttl_option f =
           Some (case m_cacheTime e of
                   None \<Rightarrow> cacheTime opts
                 | Some t \<Rightarrow> if t = 0 then cacheTime opts else t)
       \<and> (\<forall>v. operation p \<notin> set (defaultMutationMethods cm)
              \<and> lib_get env M (queryArgs p) (store w) = Miss
              \<and> fst (query env (model p) (operation p) (queryArgs p) (db w)) = Inr v \<longrightarrow>
              store (snd (allOperations cm env opts p w)) =
                lib_set env M (queryArgs p) v
                  (case ttl_option f of Some t \<Rightarrow> t | None \<Rightarrow> cacheTime opts)
                  (references f \<lparr>a_args = None, a_queryArgs = queryArgs p, a_model = None\<rparr>
                     (lib_key env (queryArgs p)))
                  (store w))"
proof -
  let ?ttl = "case m_cacheTime e of None \<Rightarrow> cacheTime opts
              | Some t \<Rightarrow> if t = 0 then cacheTime opts else t"
  let ?f = "modelsFetch (m_cacheKey e) (num_or (m_cacheTime e) (cacheTime opts)) (queryArgs p)"
  let ?a = "\<lparr>a_args = None, a_queryArgs = queryArgs p, a_model = None\<rparr>"
  let ?w1 = "w\<lparr>cache := (cache w)(M \<mapsto> ?f)\<rparr>"
  have t: "truthy (model p)" and m: "template (model p) = M"
    using assms(1,2) by (simp_all add: truthy_def template_def)
  have n: "num_or (m_cacheTime e) (cacheTime opts) = ?ttl"
    by (simp add: num_or_def split: option.splits)
  have nn: "0 \<le> num_or (m_cacheTime e) (cacheTime opts)"
    using assms(9,10) by (simp add: num_or_def split: option.splits)
  have u: "property w M = None"
    using assms(3,4) by (simp add: property_None)
  have d: "defining cm opts p M w = Inr ?w1"
    using defining_entry [OF u assms(5-8)] nn by (simp add: cache_define_def)
  have w1: "cache ?w1 M = Some ?f" "store ?w1 = store w" "db ?w1 = db w"
    by simp_all
  have c: "cache (snd (allOperations cm env opts p w)) M = Some ?f"
    using allOperations_cache [OF t, of cm opts w ?w1 env] m d by simp
  have r: "references ?f a key = [k @ ''~'' @ key]" if "m_cacheKey e = Some k" "k \<noteq> []" for k a key
    using that by (simp add: str_or_def truthy_def template_def)
  have l: "ttl_option ?f = Some ?ttl"
    using n by simp
  have s: "store (snd (allOperations cm env opts p w)) =
             lib_set env M (queryArgs p) v
               (case ttl_option ?f of Some t \<Rightarrow> t | None \<Rightarrow> cacheTime opts)
               (references ?f ?a (lib_key env (queryArgs p))) (store w)"
    if rd: "operation p \<notin> set (defaultMutationMethods cm)"
      and miss: "lib_get env M (queryArgs p) (store w) = Miss"
      and ok: "fst (query env (model p) (operation p) (queryArgs p) (db w)) = Inr v" for v
  proof -
    have all: "allOperations cm env opts p w = cached env opts p M (Function ?f) ?w1"
      using allOperations_cached [OF t, of opts cm w ?w1 ?f env] m assms(5,6) rd d by simp
    have st: "fst (cacheFunction env opts p M ?f ?w1) = Inr v
       \<and> store (snd (cacheFunction env opts p M ?f ?w1)) =
           lib_set env M (queryArgs p) v
             (case ttl_option ?f of Some t \<Rightarrow> t | None \<Rightarrow> cacheTime opts)
             (references ?f ?a (lib_key env (queryArgs p))) (store ?w1)"
      using cacheFunction_stores [of env M p ?w1 ?f v opts] miss ok w1(2,3) by simp
    then have "fst (call env opts p M (Function ?f) ?w1) = Inr v"
      by (simp add: call_def)
    from cached_fulfilled [OF this] show ?thesis
      using all st w1(2) by (simp add: call_def)
  qed
  show ?thesis
    using c r l s by blast
qed

text \<open>A first read of \<open>User\<close>, configured with the prefix \<open>U\<close>, 300 seconds and the related
  model \<open>Post\<close>: one entry, tagged \<^verbatim>\<open>U~{}\<close> alone, with ttl 300.\<close>

theorem C7_entry_defines_references_and_ttl_witness:
  "store (snd (allOperations example_methods example_env keyed_options findMany_User example_world))
     = [(''User~{}'', ''findMany:{}'', 300, [''U~{}''])]"
proof -
  let ?e = "(entry ''User'')\<lparr>m_cacheKey := Some ''U'', m_cacheTime := Some 300,
                                      m_invalidateRelated := Some [''Post'']\<rparr>"
  have h1: "model findMany_User = Some ''User''" and h2: "''User'' \<noteq> []"
    by (simp_all add: findMany_User_def)
  have h3: "cache example_world ''User'' = None"
    and h3': "''User'' \<notin> set (members example_world)"
    by (simp_all add: example_world_def)
  have h4: "''User'' \<notin> set (excludeModels keyed_options)"
    by (simp add: keyed_options_def example_options_def)
  have h5: "operation findMany_User \<notin> set (excludedCacheMethods example_methods keyed_options)"
    by (simp add: excludedCacheMethods_def keyed_options_def example_options_def)
  have h6: "find (\<lambda>e. m_model e = ''User'') (models keyed_options) = Some ?e"
    by (simp add: keyed_options_def entry_def)
  have h7: "\<not> js_includes (m_excludeMethods ?e) (operation findMany_User)"
    by (simp add: js_includes_def entry_def)
  have h8: "0 \<le> cacheTime keyed_options"
    by (simp add: keyed_options_def example_options_def)
  have h9: "case m_cacheTime ?e of None \<Rightarrow> True | Some t \<Rightarrow> 0 \<le> t"
    by simp
  have r: "operation findMany_User \<notin> set (defaultMutationMethods example_methods)"
    by (simp add: findMany_User_def example_methods_def PrismaMutationAction_def)
  have miss: "lib_get example_env ''User'' (queryArgs findMany_User) (store example_world) = Miss"
    by (simp add: example_env_def example_world_def)
  have ok: "fst (query example_env (model findMany_User) (operation findMany_User)
                  (queryArgs findMany_User) (db example_world)) = Inr ''findMany:{}''"
    by (simp add: example_env_def findMany_User_def)
  from C7_entry_defines_references_and_ttl [OF h1 h2 h3 h3' h4 h5 h6 h7 h8 h9,
      where env = example_env]
  obtain f where
    refs: "\<forall>k a key. m_cacheKey ?e = Some k \<and> k \<noteq> [] \<longrightarrow> references f a key = [k @ ''~'' @ key]"
    and ttl: "ttl_option f =
           Some (case m_cacheTime ?e of
                   None \<Rightarrow> cacheTime keyed_options
                 | Some t \<Rightarrow> if t = 0 then cacheTime keyed_options else t)"
    and st: "\<forall>v. operation findMany_User \<notin> set (defaultMutationMethods example_methods)
              \<and> lib_get example_env ''User'' (queryArgs findMany_User) (store example_world) = Miss
              \<and> fst (query example_env (model findMany_User) (operation findMany_User)
                      (queryArgs findMany_User) (db example_world)) = Inr v \<longrightarrow>
              store (snd (allOperations example_methods example_env keyed_options findMany_User
                            example_world)) =
                lib_set example_env ''User'' (queryArgs findMany_User) v
                  (case ttl_option f of Some t \<Rightarrow> t | None \<Rightarrow> cacheTime keyed_options)
                  (references f
                     \<lparr>a_args = None, a_queryArgs = queryArgs findMany_User, a_model = None\<rparr>
                     (lib_key example_env (queryArgs findMany_User)))
                  (store example_world)"
    by blast
  have refs': "references f a key = [''U~'' @ key]" for a key
    using refs by simp
  have ttl': "ttl_option f = Some 300"
    using ttl by simp
  have "store (snd (allOperations example_methods example_env keyed_options findMany_User
                            example_world)) =
                lib_set example_env ''User'' (queryArgs findMany_User) ''findMany:{}''
                  (case ttl_option f of Some t \<Rightarrow> t | None \<Rightarrow> cacheTime keyed_options)
                  (references f
                     \<lparr>a_args = None, a_queryArgs = queryArgs findMany_User, a_model = None\<rparr>
                     (lib_key example_env (queryArgs findMany_User)))
                  (store example_world)"
    using st r miss ok by blast
  then show ?thesis
    by (simp add: refs' ttl' example_env_def example_world_def findMany_User_def)
qed

text \<open>  C7 as stated fails in two places. A configured \<^verbatim>\<open>cacheTime\<close> of 0 does not override the
  default: \<^verbatim>\<open>cacheTime || cacheOptions.ttl\<close> takes the default, 60 here. And without a
  \<^verbatim>\<open>cacheKey\<close> the prefix is not the model name: the callback's parameter \<^verbatim>\<open>{ model }\<close> is
  read from the argument object of the call, \<^verbatim>\<open>{ cb, queryArgs }\<close>, which has no such
  property, so the tag is \<^verbatim>\<open>undefined~{}\<close>.\<close>

theorem C7_zero_ttl_and_undefined_prefix:
  "store (snd (allOperations example_methods example_env zero_ttl_options findMany_User example_world))
     = [(''User~{}'', ''findMany:{}'', 60, [''undefined~{}''])]"
  by (simp add: example_defs zero_ttl_options_def)

end
